theory Spec2Isabelle
  imports Main
begin

section \<open>storekit-go: the receipt verification client (client.go)\<close>

text \<open>
  A shallow embedding of \<^verbatim>\<open>client.go\<close>. The client is a Go struct reached through a
  pointer, so clients live in a store and the methods take the pointer and the store.
  What the file gets from other packages (\<^verbatim>\<open>encoding/json\<close>, \<^verbatim>\<open>net/http\<close>) is a
  parameter of the model, collected in the record \<open>env\<close>; the network has a state of
  its own, threaded through every call of \<^verbatim>\<open>http.DefaultClient.Do\<close>.
\<close>

subsection \<open>Data\<close>

text \<open>Go's \<^verbatim>\<open>byte\<close> is an 8-bit value, as is HOL's \<^typ>\<open>char\<close>; a \<^verbatim>\<open>[]byte\<close> is a \<^typ>\<open>string\<close>.\<close>

type_synonym byte = char

text \<open>
  Error values. \<open>Foreign\<close> stands for an error made by another package
  (\<^verbatim>\<open>encoding/json\<close>, \<^verbatim>\<open>net/http\<close>, \<^verbatim>\<open>io\<close>), named by its text; the other two
  are \<^verbatim>\<open>errors.New\<close> and \<^verbatim>\<open>errors.Wrap\<close> of \<^verbatim>\<open>github.com/pkg/errors\<close>.
\<close>

datatype error = Foreign string | errors_New string | errors_Wrap error string

text \<open>A call either returns or panics (a nil pointer dereference).\<close>

datatype 'a outcome = Panic | Return 'a

definition sandboxReceiptVerificationURL :: string where
  "sandboxReceiptVerificationURL = ''https://sandbox.itunes.apple.com/verifyReceipt''"

definition productionReceiptVerificationURL :: string where
  "productionReceiptVerificationURL = ''https://buy.itunes.apple.com/verifyReceipt''"

record client =
  verificationURL :: string
  autofixEnvironment :: bool

text \<open>
  A \<^verbatim>\<open>*client\<close> is nil or the address of a client in the store. The store is the list
  of the clients allocated so far, an address is an index into it. Go has no dangling
  pointers; the model reads an address outside the store as it reads nil.
\<close>

datatype client_ptr = NilPtr | Ptr nat

type_synonym heap = "client list"

fun deref :: "heap \<Rightarrow> client_ptr \<Rightarrow> client option" where
  "deref h NilPtr = None"
| "deref h (Ptr a) = (if a < length h then Some (h ! a) else None)"

fun assign :: "heap \<Rightarrow> client_ptr \<Rightarrow> client \<Rightarrow> heap" where
  "assign h NilPtr v = h"
| "assign h (Ptr a) v = h[a := v]"

text \<open>
  Modelled from the spec: the type \<^verbatim>\<open>ReceiptResponse\<close> and the two status constants are
  declared in a file of the repository that is not under src/. The response is a
  record with the one field the client reads, \<open>Status\<close>; every other field sits in the
  record's extension. The constants are 21007 (a sandbox receipt sent to production)
  and 21008 (a production receipt sent to sandbox), as the comments in
  \<^verbatim>\<open>checkResendNeeded\<close> also say.
\<close>

record ReceiptResponse =
  Status :: int

definition ReceiptResponseStatusSandboxReceiptSentToProduction :: int where
  "ReceiptResponseStatusSandboxReceiptSentToProduction = 21007"

definition ReceiptResponseStatusProductionReceiptSentToSandbox :: int where
  "ReceiptResponseStatusProductionReceiptSentToSandbox = 21008"

subsection \<open>The configuration methods\<close>

text \<open>\<^verbatim>\<open>NewVerificationClient\<close> allocates a client and returns its address.\<close>

definition NewVerificationClient :: "heap \<Rightarrow> client_ptr \<times> heap" where
  "NewVerificationClient h =
     (Ptr (length h),
      h @ [\<lparr>verificationURL = productionReceiptVerificationURL,
            autofixEnvironment = True\<rparr>])"

definition OnSandboxEnv :: "client_ptr \<Rightarrow> heap \<Rightarrow> client_ptr outcome \<times> heap" where
  "OnSandboxEnv c h =
     (case deref h c of
        None \<Rightarrow> (Panic, h)
      | Some cl \<Rightarrow>
          (Return c, assign h c (cl\<lparr>verificationURL := sandboxReceiptVerificationURL\<rparr>)))"

definition OnProductionEnv :: "client_ptr \<Rightarrow> heap \<Rightarrow> client_ptr outcome \<times> heap" where
  "OnProductionEnv c h =
     (case deref h c of
        None \<Rightarrow> (Panic, h)
      | Some cl \<Rightarrow>
          (Return c, assign h c (cl\<lparr>verificationURL := productionReceiptVerificationURL\<rparr>)))"

definition WithoutEnvAutoFix :: "client_ptr \<Rightarrow> heap \<Rightarrow> client_ptr outcome \<times> heap" where
  "WithoutEnvAutoFix c h =
     (case deref h c of
        None \<Rightarrow> (Panic, h)
      | Some cl \<Rightarrow> (Return c, assign h c (cl\<lparr>autofixEnvironment := False\<rparr>)))"

definition isSandbox :: "client_ptr \<Rightarrow> heap \<Rightarrow> bool outcome" where
  "isSandbox c h =
     (case deref h c of
        None \<Rightarrow> Panic
      | Some cl \<Rightarrow> Return (verificationURL cl = sandboxReceiptVerificationURL))"

definition isProduction :: "client_ptr \<Rightarrow> heap \<Rightarrow> bool outcome" where
  "isProduction c h =
     (case deref h c of
        None \<Rightarrow> Panic
      | Some cl \<Rightarrow> Return (verificationURL cl = productionReceiptVerificationURL))"

subsection \<open>What the Go library does\<close>

text \<open>
  \<^verbatim>\<open>parseResponse\<close> calls \<^verbatim>\<open>bytes.Map\<close> with a function that drops the runes for which
  \<^verbatim>\<open>unicode.IsControl\<close> holds. These library functions are modelled as the Go
  standard library defines them. A rune is an \<^verbatim>\<open>int32\<close>; the values that occur are
  \<open>-1\<close> and code points, so runes are integers here.
\<close>

type_synonym rune = int

definition utf8_RuneError :: rune where
  "utf8_RuneError = 0xFFFD"

text \<open>
  \<^verbatim>\<open>unicode.IsControl\<close>: the code points of category Cc, all of them in Latin-1:
  U+0000 to U+001F and U+007F to U+009F.
\<close>

definition unicode_IsControl :: "rune \<Rightarrow> bool" where
  "unicode_IsControl r = ((0 \<le> r \<and> r \<le> 0x1F) \<or> (0x7F \<le> r \<and> r \<le> 0x9F))"

text \<open>
  \<^verbatim>\<open>utf8.DecodeRune\<close>: the first rune of a byte sequence and its width in bytes. A
  byte that does not start a well-formed encoding (a continuation byte, 0xC0, 0xC1,
  0xF5 and above, a truncated sequence, a second byte outside the range accepted after
  the first, which excludes overlong forms, surrogates and values above U+10FFFF)
  yields \<open>(RuneError, 1)\<close>; the empty sequence yields \<open>(RuneError, 0)\<close>. The masks
  and shifts of the Go code are written as arithmetic: \<^verbatim>\<open>p0 & 0x1F\<close> is \<open>p0 mod 32\<close>,
  \<^verbatim>\<open><< 6\<close> is \<open>* 64\<close>, and \<^verbatim>\<open>|\<close> of values with no bit in common is \<open>+\<close>.
\<close>

fun utf8_DecodeRune :: "byte list \<Rightarrow> rune \<times> nat" where
  "utf8_DecodeRune [] = (utf8_RuneError, 0)"
| "utf8_DecodeRune (c0 # p) =
     (let p0 = (of_char c0 :: int) in
      if p0 < 0x80 then (p0, 1)
      else if p0 < 0xC2 \<or> 0xF4 < p0 then (utf8_RuneError, 1)
      else
        let sz = (if p0 < 0xE0 then 2 else if p0 < 0xF0 then 3 else 4 :: nat);
            lo = (if p0 = 0xE0 then 0xA0 else if p0 = 0xF0 then 0x90 else 0x80 :: int);
            hi = (if p0 = 0xED then 0x9F else if p0 = 0xF4 then 0x8F else 0xBF :: int)
        in
        if length (c0 # p) < sz then (utf8_RuneError, 1)
        else
          let b1 = (of_char (p ! 0) :: int) in
          if b1 < lo \<or> hi < b1 then (utf8_RuneError, 1)
          else if sz \<le> 2 then (p0 mod 32 * 64 + b1 mod 64, 2)
          else
            let b2 = (of_char (p ! 1) :: int) in
            if b2 < 0x80 \<or> 0xBF < b2 then (utf8_RuneError, 1)
            else if sz \<le> 3 then (p0 mod 16 * 4096 + b1 mod 64 * 64 + b2 mod 64, 3)
            else
              let b3 = (of_char (p ! 2) :: int) in
              if b3 < 0x80 \<or> 0xBF < b3 then (utf8_RuneError, 1)
              else (p0 mod 8 * 262144 + b1 mod 64 * 4096 + b2 mod 64 * 64 + b3 mod 64, 4))"

text \<open>
  \<^verbatim>\<open>utf8.EncodeRune\<close> (\<^verbatim>\<open>utf8.AppendRune\<close>): the bytes of a rune. The rune is read as a
  \<^verbatim>\<open>uint32\<close>; a value above U+10FFFF or a surrogate is written as \<open>RuneError\<close>.
\<close>

definition utf8_EncodeRune :: "rune \<Rightarrow> byte list" where
  "utf8_EncodeRune r =
     (let i = r mod 4294967296 in
      if i \<le> 0x7F then [char_of i]
      else if i \<le> 0x7FF then [char_of (0xC0 + i div 64), char_of (0x80 + i mod 64)]
      else if 0x10FFFF < i \<or> (0xD800 \<le> i \<and> i \<le> 0xDFFF) then
        [char_of (0xEF :: int), char_of (0xBF :: int), char_of (0xBD :: int)]
      else if i \<le> 0xFFFF then
        [char_of (0xE0 + i div 4096), char_of (0x80 + i div 64 mod 64),
         char_of (0x80 + i mod 64)]
      else
        [char_of (0xF0 + i div 262144), char_of (0x80 + i div 4096 mod 64),
         char_of (0x80 + i div 64 mod 64), char_of (0x80 + i mod 64)])"

text \<open>
  \<^verbatim>\<open>bytes.Map\<close>: decode the next rune (a byte below 0x80 is its own rune), apply the
  mapping, append the encoding of the result unless it is negative, and go on after the
  bytes read.
\<close>

function bytes_Map :: "(rune \<Rightarrow> rune) \<Rightarrow> byte list \<Rightarrow> byte list" where
  "bytes_Map mapping [] = []"
| "bytes_Map mapping (c # cs) =
     (let (r, wid) = (if (of_char c :: int) \<ge> 0x80 then utf8_DecodeRune (c # cs)
                      else (of_char c, 1));
          r' = mapping r
      in (if r' \<ge> 0 then utf8_EncodeRune r' else []) @
         bytes_Map mapping (drop wid (c # cs)))"
  by pat_completeness auto

termination
  by (relation "measure (\<lambda>(mapping, s). length s)") (auto simp: Let_def split: if_splits)

text \<open>
  \<^verbatim>\<open>bytes.Runes\<close>: the code points of a byte sequence, as \<^verbatim>\<open>utf8.DecodeRune\<close> reads
  them one after the other. The client does not call it; the property of
  \<^verbatim>\<open>parseResponse\<close> is stated with it.
\<close>

function bytes_Runes :: "byte list \<Rightarrow> rune list" where
  "bytes_Runes [] = []"
| "bytes_Runes (c # cs) =
     (let (r, wid) = utf8_DecodeRune (c # cs) in r # bytes_Runes (drop wid (c # cs)))"
  by pat_completeness auto
termination
  by (relation "measure length") (auto simp: Let_def split: if_splits)

text \<open>\<^verbatim>\<open>utf8.ValidRune\<close>: the runes that have an encoding of their own.\<close>

definition valid_rune :: "rune \<Rightarrow> bool" where
  "valid_rune r = (0 \<le> r \<and> r \<le> 0x10FFFF \<and> \<not> (0xD800 \<le> r \<and> r \<le> 0xDFFF))"

subsection \<open>The environment of the client\<close>

text \<open>
  A \<^verbatim>\<open>bytes.Reader\<close> is a byte slice and the index of the next byte to read;
  \<^verbatim>\<open>bytes.NewReader\<close> starts at index 0. A request sends the unread bytes.
\<close>

record bytes_Reader =
  rd_s :: "byte list"
  rd_i :: nat

definition bytes_NewReader :: "byte list \<Rightarrow> bytes_Reader" where
  "bytes_NewReader b = \<lparr>rd_s = b, rd_i = 0\<rparr>"

definition unread :: "bytes_Reader \<Rightarrow> byte list" where
  "unread r = drop (rd_i r) (rd_s r)"

record http_Request =
  Method :: string
  URL :: string
  Header :: "(string \<times> string) list"
  RequestBody :: "byte list"

text \<open>
  What the client reads of an \<^verbatim>\<open>http.Response\<close>: \<^verbatim>\<open>StatusCode\<close>, \<^verbatim>\<open>Status\<close> (here
  \<open>StatusText\<close>) and what \<^verbatim>\<open>ioutil.ReadAll\<close> makes of \<^verbatim>\<open>Body\<close>.
\<close>

record http_Response =
  StatusCode :: int
  StatusText :: string
  Body :: "error + byte list"

text \<open>
  The functions of other packages: \<^verbatim>\<open>json.Marshal\<close> on the request type (declared
  outside src/, so a type parameter), \<^verbatim>\<open>json.Unmarshal\<close> into a new
  \<^verbatim>\<open>ReceiptResponse\<close>, the error of \<^verbatim>\<open>http.NewRequest\<close> for a method and a URL, if
  any, and \<^verbatim>\<open>http.DefaultClient.Do\<close>, which depends on the context and on the state
  of the network and changes the latter.
\<close>

record ('req, 'resp, 'ctx, 'w) env =
  json_Marshal :: "'req \<Rightarrow> error + byte list"
  json_Unmarshal :: "byte list \<Rightarrow> error + 'resp"
  http_NewRequest_err :: "string \<Rightarrow> string \<Rightarrow> error option"
  http_Do :: "'ctx \<Rightarrow> http_Request \<Rightarrow> 'w \<Rightarrow> (error + http_Response) \<times> 'w"

text \<open>
  The state a call runs in: the store of clients, the network, and the log of the calls
  of \<^verbatim>\<open>post\<close> made so far (the URL and the request bytes of each), which the code
  does not keep and the properties below count.
\<close>

record 'w state =
  clients :: heap
  net :: 'w
  posts :: "(string \<times> byte list) list"

subsection \<open>Transport and decoding\<close>

definition http_StatusOK :: int where
  "http_StatusOK = 200"

definition post ::
  "('req, 'resp, 'ctx, 'w) env \<Rightarrow> client_ptr \<Rightarrow> 'ctx \<Rightarrow> bytes_Reader \<Rightarrow> string \<Rightarrow> 'w state \<Rightarrow>
     (byte list option \<times> error option) \<times> 'w state" where
  "post E c ctx requestBuf url s =
     (let s0 = s\<lparr>posts := posts s @ [(url, unread requestBuf)]\<rparr> in
      case http_NewRequest_err E ''POST'' url of
        Some err \<Rightarrow> ((None, Some err), s0)
      | None \<Rightarrow>
          let req = \<lparr>Method = ''POST'', URL = url,
                     Header = [(''Content-Type'', ''application/json'')],
                     RequestBody = unread requestBuf\<rparr>
          in
          (case http_Do E ctx req (net s0) of
             (Inl err, w) \<Rightarrow>
               ((None, Some (errors_Wrap err ''could not connect to app store server'')),
                s0\<lparr>net := w\<rparr>)
           | (Inr r, w) \<Rightarrow>
               if StatusCode r \<noteq> http_StatusOK then
                 ((None, Some (errors_New (''app store http error ('' @ StatusText r @ '')''))),
                  s0\<lparr>net := w\<rparr>)
               else
                 (case Body r of
                    Inl err \<Rightarrow>
                      ((None, Some (errors_Wrap err ''could not read app store response'')),
                       s0\<lparr>net := w\<rparr>)
                  | Inr body \<Rightarrow> ((Some body, None), s0\<lparr>net := w\<rparr>))))"

text \<open>The function given to \<^verbatim>\<open>bytes.Map\<close> in \<^verbatim>\<open>parseResponse\<close>.\<close>

definition dropControl :: "rune \<Rightarrow> rune" where
  "dropControl r = (if unicode_IsControl r then -1 else r)"

definition parseResponse ::
  "('req, 'resp, 'ctx, 'w) env \<Rightarrow> byte list \<Rightarrow> 'resp option \<times> error option" where
  "parseResponse E body =
     (case json_Unmarshal E (bytes_Map dropControl body) of
        Inl err \<Rightarrow> (None, Some (errors_Wrap err ''could not unmarshal app store response''))
      | Inr resp \<Rightarrow> (Some resp, None))"

text \<open>A nil \<^verbatim>\<open>[]byte\<close> read as a slice is the empty slice.\<close>

fun slice :: "byte list option \<Rightarrow> byte list" where
  "slice None = []"
| "slice (Some b) = b"

definition queryStore ::
  "('req, 'resp, 'ctx, 'w) env \<Rightarrow> client_ptr \<Rightarrow> 'ctx \<Rightarrow> bytes_Reader \<Rightarrow> string \<Rightarrow> 'w state \<Rightarrow>
     (byte list option \<times> 'resp option \<times> error option) \<times> 'w state" where
  "queryStore E c ctx requestBuf url s =
     (case post E c ctx requestBuf url s of
        ((body, Some err), s') \<Rightarrow> ((body, None, Some err), s')
      | ((body, None), s') \<Rightarrow>
          (case parseResponse E (slice body) of
             (resp, Some err) \<Rightarrow> ((body, resp, Some err), s')
           | (resp, None) \<Rightarrow> ((body, resp, None), s')))"

subsection \<open>Verify\<close>

text \<open>
  \<^verbatim>\<open>checkResendNeeded\<close> reads \<^verbatim>\<open>resp.Status\<close> (a nil \<^verbatim>\<open>resp\<close> panics) and the
  client's URL. \<^verbatim>\<open>newUrl\<close> keeps its zero value, the empty string, when no resend is
  needed.
\<close>

definition checkResendNeeded ::
  "client_ptr \<Rightarrow> 'z ReceiptResponse_scheme option \<Rightarrow> heap \<Rightarrow> (bool \<times> string) outcome" where
  "checkResendNeeded c resp h =
     (case resp of
        None \<Rightarrow> Panic
      | Some r \<Rightarrow>
          if Status r = ReceiptResponseStatusSandboxReceiptSentToProduction then
            (case isProduction c h of
               Panic \<Rightarrow> Panic
             | Return b \<Rightarrow>
                 Return (if b then (True, sandboxReceiptVerificationURL) else (False, [])))
          else if Status r = ReceiptResponseStatusProductionReceiptSentToSandbox then
            (case isSandbox c h of
               Panic \<Rightarrow> Panic
             | Return b \<Rightarrow>
                 Return (if b then (True, productionReceiptVerificationURL) else (False, [])))
          else Return (False, []))"

definition Verify ::
  "('req, 'z ReceiptResponse_scheme, 'ctx, 'w) env \<Rightarrow> client_ptr \<Rightarrow> 'ctx \<Rightarrow> 'req \<Rightarrow> 'w state \<Rightarrow>
     (byte list option \<times> 'z ReceiptResponse_scheme option \<times> error option) outcome \<times> 'w state"
  where
  "Verify E c ctx receiptRequest s =
     (case json_Marshal E receiptRequest of
        Inl err \<Rightarrow>
          (Return (None, None, Some (errors_Wrap err ''could not marshal receipt request'')), s)
      | Inr reqJSON \<Rightarrow>
          (case deref (clients s) c of
             None \<Rightarrow> (Panic, s)
           | Some cl \<Rightarrow>
               (case queryStore E c ctx (bytes_NewReader reqJSON) (verificationURL cl) s of
                  ((body, resp, Some err), s1) \<Rightarrow> (Return (body, resp, Some err), s1)
                | ((body, resp, None), s1) \<Rightarrow>
                    (case deref (clients s1) c of
                       None \<Rightarrow> (Panic, s1)
                     | Some cl1 \<Rightarrow>
                         if autofixEnvironment cl1 then
                           (case checkResendNeeded c resp (clients s1) of
                              Panic \<Rightarrow> (Panic, s1)
                            | Return (resendNeeded, newUrl) \<Rightarrow>
                                if resendNeeded then
                                  (case queryStore E c ctx (bytes_NewReader reqJSON) newUrl s1 of
                                     (res, s2) \<Rightarrow> (Return res, s2))
                                else (Return (body, resp, None), s1))
                         else (Return (body, resp, None), s1)))))"

subsection \<open>An environment for the examples\<close>

text \<open>
  The instances below run the client in a small environment: requests are a receipt or
  a value that cannot be serialised, the decoder knows three response bodies, every URL
  is accepted, and the network answers the calls from a list of prepared replies, in
  order, and refuses the connection when the list is empty.
\<close>

datatype example_request = Receipt string | Unserialisable

definition example_Marshal :: \<open>example_request \<Rightarrow> error + byte list\<close> where
  \<open>example_Marshal q =
     (case q of
        Receipt d \<Rightarrow> Inr (''{"receipt-data":"'' @ d @ ''"}'')
      | Unserialisable \<Rightarrow> Inl (Foreign ''json: unsupported value''))\<close>

definition example_Unmarshal :: \<open>byte list \<Rightarrow> error + ReceiptResponse\<close> where
  \<open>example_Unmarshal b =
     (if b = ''{"status":0}'' then Inr \<lparr>Status = 0\<rparr>
      else if b = ''{"status":21007}'' then Inr \<lparr>Status = 21007\<rparr>
      else if b = ''{"status":21008}'' then Inr \<lparr>Status = 21008\<rparr>
      else Inl (Foreign ''invalid character''))\<close>

type_synonym example_net = "(error + http_Response) list"

definition example_Do ::
  "unit \<Rightarrow> http_Request \<Rightarrow> example_net \<Rightarrow> (error + http_Response) \<times> example_net" where
  "example_Do ctx req w =
     (case w of
        [] \<Rightarrow> (Inl (Foreign ''connection refused''), [])
      | a # w' \<Rightarrow> (a, w'))"

definition example_env :: "(example_request, ReceiptResponse, unit, example_net) env" where
  "example_env =
     \<lparr>json_Marshal = example_Marshal, json_Unmarshal = example_Unmarshal,
      http_NewRequest_err = (\<lambda>m u. None), http_Do = example_Do\<rparr>"

definition ok_reply :: "byte list \<Rightarrow> error + http_Response" where
  "ok_reply b = Inr \<lparr>StatusCode = 200, StatusText = ''200 OK'', Body = Inr b\<rparr>"

definition live_client :: client where
  "live_client =
     \<lparr>verificationURL = productionReceiptVerificationURL, autofixEnvironment = True\<rparr>"

definition example_state :: "client \<Rightarrow> example_net \<Rightarrow> example_net state" where
  "example_state cl w = \<lparr>clients = [cl], net = w, posts = []\<rparr>"

definition example_json :: \<open>byte list\<close> where
  \<open>example_json = ''{"receipt-data":"abc"}''\<close>

definition sandbox_client :: client where
  "sandbox_client =
     \<lparr>verificationURL = sandboxReceiptVerificationURL, autofixEnvironment = True\<rparr>"

subsection \<open>Sequences of configuration calls\<close>

text \<open>
  The three configuration methods, and a chain of them as Go writes it,
  \<^verbatim>\<open>c.OnSandboxEnv().WithoutEnvAutoFix()\<close>: each method is called on the pointer the
  previous one returned.
\<close>

datatype config_call = CallOnSandboxEnv | CallOnProductionEnv | CallWithoutEnvAutoFix

fun call :: "config_call \<Rightarrow> client_ptr \<Rightarrow> heap \<Rightarrow> client_ptr outcome \<times> heap" where
  "call CallOnSandboxEnv c h = OnSandboxEnv c h"
| "call CallOnProductionEnv c h = OnProductionEnv c h"
| "call CallWithoutEnvAutoFix c h = WithoutEnvAutoFix c h"

fun chain :: "config_call list \<Rightarrow> client_ptr \<Rightarrow> heap \<Rightarrow> client_ptr outcome \<times> heap" where
  "chain [] c h = (Return c, h)"
| "chain (m # ms) c h =
     (case call m c h of
        (Panic, h') \<Rightarrow> (Panic, h')
      | (Return c', h') \<Rightarrow> chain ms c' h')"

section \<open>Properties\<close>

subsection \<open>The configuration methods\<close>

lemma deref_assign_same: "deref h c = Some cl \<Longrightarrow> deref (assign h c v) c = Some v"
  by (cases c) (auto split: if_splits)

lemma deref_assign_other: "q \<noteq> c \<Longrightarrow> deref (assign h c v) q = deref h q"
  by (cases c; cases q) auto

lemma urls_distinct: "sandboxReceiptVerificationURL \<noteq> productionReceiptVerificationURL"
  by (simp add: sandboxReceiptVerificationURL_def productionReceiptVerificationURL_def)

lemma statuses_distinct:
  "ReceiptResponseStatusSandboxReceiptSentToProduction \<noteq>
   ReceiptResponseStatusProductionReceiptSentToSandbox"
  by (simp add: ReceiptResponseStatusSandboxReceiptSentToProduction_def
      ReceiptResponseStatusProductionReceiptSentToSandbox_def)

lemma call_keeps_urls:
  assumes "deref h c = Some cl"
    and "verificationURL cl = sandboxReceiptVerificationURL \<or>
         verificationURL cl = productionReceiptVerificationURL"
  shows "\<exists>h' cl'. call m c h = (Return c, h') \<and> deref h' c = Some cl' \<and>
           (verificationURL cl' = sandboxReceiptVerificationURL \<or>
            verificationURL cl' = productionReceiptVerificationURL)"
  using assms
  by (cases m)
    (auto simp: OnSandboxEnv_def OnProductionEnv_def WithoutEnvAutoFix_def deref_assign_same)

lemma chain_keeps_urls:
  assumes "deref h c = Some cl"
    and "verificationURL cl = sandboxReceiptVerificationURL \<or>
         verificationURL cl = productionReceiptVerificationURL"
  shows "\<exists>h' cl'. chain ms c h = (Return c, h') \<and> deref h' c = Some cl' \<and>
           (verificationURL cl' = sandboxReceiptVerificationURL \<or>
            verificationURL cl' = productionReceiptVerificationURL)"
  using assms
proof (induction ms arbitrary: h cl)
  case Nil
  then show ?case by simp
next
  case (Cons m ms)
  from call_keeps_urls [OF Cons.prems, of m] obtain h1 cl1 where
    step: "call m c h = (Return c, h1)" and cl1: "deref h1 c = Some cl1" and
    url1: "verificationURL cl1 = sandboxReceiptVerificationURL \<or>
           verificationURL cl1 = productionReceiptVerificationURL"
    by blast
  from Cons.IH [OF cl1 url1] show ?case
    by (simp add: step)
qed

text \<open>
  C9: \<^verbatim>\<open>NewVerificationClient\<close> returns a client whose verification URL is the
  production URL and whose auto-fix flag is set.
\<close>

theorem C9_new_client_defaults:
  "deref (snd (NewVerificationClient h)) (fst (NewVerificationClient h)) =
     Some \<lparr>verificationURL = productionReceiptVerificationURL, autofixEnvironment = True\<rparr>"
  by (simp add: NewVerificationClient_def)

text \<open>
  C10: a client made by \<^verbatim>\<open>NewVerificationClient\<close> and configured by any chain of
  \<^verbatim>\<open>OnSandboxEnv\<close>, \<^verbatim>\<open>OnProductionEnv\<close> and \<^verbatim>\<open>WithoutEnvAutoFix\<close> calls has the sandbox
  URL or the production URL, and exactly one of \<^verbatim>\<open>isSandbox\<close> and \<^verbatim>\<open>isProduction\<close>
  holds of it; the chain returns the pointer it started from. Each method, on any
  client, returns its receiver, writes its own field only, and leaves every other
  client alone.
\<close>

theorem C10_configuration_invariant:
  assumes "NewVerificationClient h0 = (c, h1)"
    and "chain ms c h1 = (r, h)"
  shows
    "r = Return c \<and>
     (\<exists>cl. deref h c = Some cl \<and>
        (verificationURL cl = sandboxReceiptVerificationURL \<or>
         verificationURL cl = productionReceiptVerificationURL) \<and>
        (\<exists>b. isSandbox c h = Return b \<and> isProduction c h = Return (\<not> b))) \<and>
     (\<forall>p g cl. deref g p = Some cl \<longrightarrow>
        fst (OnSandboxEnv p g) = Return p \<and>
        deref (snd (OnSandboxEnv p g)) p =
          Some (cl\<lparr>verificationURL := sandboxReceiptVerificationURL\<rparr>) \<and>
        fst (OnProductionEnv p g) = Return p \<and>
        deref (snd (OnProductionEnv p g)) p =
          Some (cl\<lparr>verificationURL := productionReceiptVerificationURL\<rparr>) \<and>
        fst (WithoutEnvAutoFix p g) = Return p \<and>
        deref (snd (WithoutEnvAutoFix p g)) p = Some (cl\<lparr>autofixEnvironment := False\<rparr>) \<and>
        (\<forall>q. q \<noteq> p \<longrightarrow>
           deref (snd (OnSandboxEnv p g)) q = deref g q \<and>
           deref (snd (OnProductionEnv p g)) q = deref g q \<and>
           deref (snd (WithoutEnvAutoFix p g)) q = deref g q))"
proof -
  have new: "deref h1 c =
      Some \<lparr>verificationURL = productionReceiptVerificationURL, autofixEnvironment = True\<rparr>"
    using assms(1) by (auto simp: NewVerificationClient_def)
  from chain_keeps_urls [OF new, of ms] assms(2) obtain cl where
    r: "r = Return c" and cl: "deref h c = Some cl" and
    url: "verificationURL cl = sandboxReceiptVerificationURL \<or>
          verificationURL cl = productionReceiptVerificationURL"
    by auto
  have excl: "\<exists>b. isSandbox c h = Return b \<and> isProduction c h = Return (\<not> b)"
    using cl url urls_distinct by (auto simp: isSandbox_def isProduction_def)
  have frame: "fst (OnSandboxEnv p g) = Return p \<and>
        deref (snd (OnSandboxEnv p g)) p =
          Some (cl\<lparr>verificationURL := sandboxReceiptVerificationURL\<rparr>) \<and>
        fst (OnProductionEnv p g) = Return p \<and>
        deref (snd (OnProductionEnv p g)) p =
          Some (cl\<lparr>verificationURL := productionReceiptVerificationURL\<rparr>) \<and>
        fst (WithoutEnvAutoFix p g) = Return p \<and>
        deref (snd (WithoutEnvAutoFix p g)) p = Some (cl\<lparr>autofixEnvironment := False\<rparr>) \<and>
        (\<forall>q. q \<noteq> p \<longrightarrow>
           deref (snd (OnSandboxEnv p g)) q = deref g q \<and>
           deref (snd (OnProductionEnv p g)) q = deref g q \<and>
           deref (snd (WithoutEnvAutoFix p g)) q = deref g q)"
    if "deref g p = Some cl" for p g cl
    using that
    by (simp add: OnSandboxEnv_def OnProductionEnv_def WithoutEnvAutoFix_def
        deref_assign_same deref_assign_other)
  show ?thesis using r cl url excl frame by blast
qed

theorem C10_configuration_invariant_witness:
  "(NewVerificationClient [] = (Ptr 0, [live_client]) \<and>
    chain [CallOnSandboxEnv, CallWithoutEnvAutoFix, CallOnProductionEnv, CallOnSandboxEnv]
      (Ptr 0) [live_client] =
      (Return (Ptr 0),
       [\<lparr>verificationURL = sandboxReceiptVerificationURL, autofixEnvironment = False\<rparr>]) \<and>
    deref [live_client, sandbox_client] (Ptr 0) = Some live_client \<and>
    Ptr 1 \<noteq> Ptr 0) \<and>
   Return (Ptr 0) = Return (Ptr 0) \<and>
   (\<exists>cl. deref [\<lparr>verificationURL = sandboxReceiptVerificationURL,
                  autofixEnvironment = False\<rparr>] (Ptr 0) = Some cl \<and>
      (verificationURL cl = sandboxReceiptVerificationURL \<or>
       verificationURL cl = productionReceiptVerificationURL) \<and>
      (\<exists>b. isSandbox (Ptr 0) [\<lparr>verificationURL = sandboxReceiptVerificationURL,
                                autofixEnvironment = False\<rparr>] = Return b \<and>
           isProduction (Ptr 0) [\<lparr>verificationURL = sandboxReceiptVerificationURL,
                                   autofixEnvironment = False\<rparr>] = Return (\<not> b))) \<and>
   (isSandbox (Ptr 0) [\<lparr>verificationURL = sandboxReceiptVerificationURL,
                        autofixEnvironment = False\<rparr>] = Return True \<and>
    isProduction (Ptr 0) [\<lparr>verificationURL = sandboxReceiptVerificationURL,
                           autofixEnvironment = False\<rparr>] = Return False) \<and>
   (fst (OnSandboxEnv (Ptr 0) [live_client, sandbox_client]) = Return (Ptr 0) \<and>
    deref (snd (OnSandboxEnv (Ptr 0) [live_client, sandbox_client])) (Ptr 0) =
      Some (live_client\<lparr>verificationURL := sandboxReceiptVerificationURL\<rparr>) \<and>
    deref (snd (WithoutEnvAutoFix (Ptr 0) [live_client, sandbox_client])) (Ptr 0) =
      Some (live_client\<lparr>autofixEnvironment := False\<rparr>) \<and>
    deref (snd (WithoutEnvAutoFix (Ptr 0) [live_client, sandbox_client])) (Ptr 1) =
      deref [live_client, sandbox_client] (Ptr 1))"
  (is "(?h1 \<and> ?h2 \<and> ?h3 \<and> ?h4) \<and> ?r \<and> ?inv \<and> ?eval \<and> ?frame")
proof -
  have h1: ?h1 and h2: ?h2 and h3: ?h3 and h4: ?h4
    by code_simp+
  have r: ?r
    by (rule C10_configuration_invariant [OF h1 h2, THEN conjunct1])
  have inv: ?inv
    by (rule C10_configuration_invariant [OF h1 h2, THEN conjunct2, THEN conjunct1])
  have eval: ?eval
    by code_simp
  have frame: ?frame
    using C10_configuration_invariant [OF h1 h2, THEN conjunct2, THEN conjunct2] h3 h4
    by blast
  show ?thesis using h1 h2 h3 h4 r inv eval frame by blast
qed

subsection \<open>What the transport does to the state\<close>

lemma post_clients: "clients (snd (post E c ctx buf url s)) = clients s"
  by (simp add: post_def Let_def split: option.splits sum.splits prod.splits)

lemma post_posts: "posts (snd (post E c ctx buf url s)) = posts s @ [(url, unread buf)]"
  by (simp add: post_def Let_def split: option.splits sum.splits prod.splits)

lemma queryStore_snd: "snd (queryStore E c ctx buf url s) = snd (post E c ctx buf url s)"
  by (simp add: queryStore_def split: option.splits sum.splits prod.splits)

lemma queryStore_clients: "clients (snd (queryStore E c ctx buf url s)) = clients s"
  by (simp add: queryStore_snd post_clients)

lemma queryStore_posts:
  "posts (snd (queryStore E c ctx buf url s)) = posts s @ [(url, unread buf)]"
  by (simp add: queryStore_snd post_posts)

lemma unread_NewReader: "unread (bytes_NewReader b) = b"
  by (simp add: unread_def bytes_NewReader_def)

lemma queryStore_clients_eq:
  "queryStore E c ctx buf url t = (r, t') \<Longrightarrow> clients t' = clients t"
  using queryStore_clients [of E c ctx buf url t] by simp

lemma queryStore_posts_eq:
  "queryStore E c ctx buf url t = (r, t') \<Longrightarrow> posts t' = posts t @ [(url, unread buf)]"
  using queryStore_posts [of E c ctx buf url t] by simp

lemma post_clients_eq: "post E c ctx buf url t = (r, t') \<Longrightarrow> clients t' = clients t"
  using post_clients [of E c ctx buf url t] by simp

lemma post_posts_eq:
  "post E c ctx buf url t = (r, t') \<Longrightarrow> posts t' = posts t @ [(url, unread buf)]"
  using post_posts [of E c ctx buf url t] by simp

lemma queryStore_decoded:
  "post E c ctx buf url t = ((body, None), t') \<Longrightarrow>
   json_Unmarshal E (bytes_Map dropControl (slice body)) = Inr r \<Longrightarrow>
   queryStore E c ctx buf url t = ((body, Some r, None), t')"
  by (simp add: queryStore_def parseResponse_def)

lemma queryStore_undecoded:
  "post E c ctx buf url t = ((body, None), t') \<Longrightarrow>
   json_Unmarshal E (bytes_Map dropControl (slice body)) = Inl e \<Longrightarrow>
   queryStore E c ctx buf url t =
     ((body, None, Some (errors_Wrap e ''could not unmarshal app store response'')), t')"
  by (simp add: queryStore_def parseResponse_def)

lemma queryStore_post_failed:
  "post E c ctx buf url t = ((body, Some err), t') \<Longrightarrow>
   queryStore E c ctx buf url t = ((body, None, Some err), t')"
  by (simp add: queryStore_def)

subsection \<open>Verify\<close>

text \<open>
  C6: when the request cannot be serialised, \<^verbatim>\<open>Verify\<close> returns a nil body, a nil
  response and the serialisation error wrapped with "could not marshal receipt
  request", and the state is untouched: no transport call is made.
\<close>

theorem C6_marshal_failure:
  "json_Marshal E receiptRequest = Inl e \<Longrightarrow>
   Verify E c ctx receiptRequest s =
     (Return (None, None, Some (errors_Wrap e ''could not marshal receipt request'')), s)"
  by (simp add: Verify_def)

theorem C6_marshal_failure_witness:
  "json_Marshal example_env Unserialisable = Inl (Foreign ''json: unsupported value'') \<and>
   Verify example_env (Ptr 0) () Unserialisable (example_state live_client []) =
     (Return (None, None,
        Some (errors_Wrap (Foreign ''json: unsupported value'')
                ''could not marshal receipt request'')),
      example_state live_client [])"
proof -
  have h: "json_Marshal example_env Unserialisable = Inl (Foreign ''json: unsupported value'')"
    by (simp add: example_env_def example_Marshal_def)
  show ?thesis
    using h C6_marshal_failure [OF h, of "Ptr 0" "()" "example_state live_client []"]
    by (rule conjI)
qed

text \<open>
  C5: when the first attempt fails, \<^verbatim>\<open>Verify\<close> returns at once with that error and
  makes no second transport call, whether auto-fix is on or off. The attempt fails
  when the transport returns an error (no connection, cancellation, an HTTP status
  other than 200, an unreadable body) or when the body does not decode.
\<close>

theorem C5_first_failure_is_final:
  fixes E :: "('req, 'z ReceiptResponse_scheme, 'ctx, 'w) env" and s s1 :: "'w state"
  assumes "deref (clients s) c = Some cl"
    and "json_Marshal E receiptRequest = Inr reqJSON"
  shows
    "(post E c ctx (bytes_NewReader reqJSON) (verificationURL cl) s = ((body, Some err), s1) \<longrightarrow>
        Verify E c ctx receiptRequest s = (Return (body, None, Some err), s1) \<and>
        posts s1 = posts s @ [(verificationURL cl, reqJSON)]) \<and>
     (post E c ctx (bytes_NewReader reqJSON) (verificationURL cl) s = ((body, None), s1) \<and>
      json_Unmarshal E (bytes_Map dropControl (slice body)) = Inl e \<longrightarrow>
        Verify E c ctx receiptRequest s =
          (Return (body, None,
             Some (errors_Wrap e ''could not unmarshal app store response'')), s1) \<and>
        posts s1 = posts s @ [(verificationURL cl, reqJSON)])"
proof (intro conjI impI)
  assume a: "post E c ctx (bytes_NewReader reqJSON) (verificationURL cl) s =
               ((body, Some err), s1)"
  show "Verify E c ctx receiptRequest s = (Return (body, None, Some err), s1)"
    using assms queryStore_post_failed [OF a] by (simp add: Verify_def)
  show "posts s1 = posts s @ [(verificationURL cl, reqJSON)]"
    using post_posts_eq [OF a] by (simp add: unread_NewReader)
next
  assume "post E c ctx (bytes_NewReader reqJSON) (verificationURL cl) s = ((body, None), s1) \<and>
      json_Unmarshal E (bytes_Map dropControl (slice body)) = Inl e"
  then have a: "post E c ctx (bytes_NewReader reqJSON) (verificationURL cl) s =
                  ((body, None), s1)"
    and b: "json_Unmarshal E (bytes_Map dropControl (slice body)) = Inl e"
    by simp_all
  show "Verify E c ctx receiptRequest s =
          (Return (body, None,
             Some (errors_Wrap e ''could not unmarshal app store response'')), s1)"
    using assms queryStore_undecoded [OF a b] by (simp add: Verify_def)
  show "posts s1 = posts s @ [(verificationURL cl, reqJSON)]"
    using post_posts_eq [OF a] by (simp add: unread_NewReader)
qed

theorem C5_first_failure_is_final_witness:
  \<open>(deref (clients (example_state live_client
        [Inr \<lparr>StatusCode = 500, StatusText = ''500 Internal Server Error'', Body = Inr []\<rparr>,
         ok_reply ''{"status":0}''])) (Ptr 0) = Some live_client \<and>
    json_Marshal example_env (Receipt ''abc'') = Inr example_json \<and>
    post example_env (Ptr 0) () (bytes_NewReader example_json) (verificationURL live_client)
      (example_state live_client
        [Inr \<lparr>StatusCode = 500, StatusText = ''500 Internal Server Error'', Body = Inr []\<rparr>,
         ok_reply ''{"status":0}'']) =
      ((None, Some (errors_New ''app store http error (500 Internal Server Error)'')),
       \<lparr>clients = [live_client], net = [ok_reply ''{"status":0}''],
        posts = [(productionReceiptVerificationURL, example_json)]\<rparr>)) \<and>
   (Verify example_env (Ptr 0) () (Receipt ''abc'')
      (example_state live_client
        [Inr \<lparr>StatusCode = 500, StatusText = ''500 Internal Server Error'', Body = Inr []\<rparr>,
         ok_reply ''{"status":0}'']) =
      (Return (None, None,
         Some (errors_New ''app store http error (500 Internal Server Error)'')),
       \<lparr>clients = [live_client], net = [ok_reply ''{"status":0}''],
        posts = [(productionReceiptVerificationURL, example_json)]\<rparr>) \<and>
    posts \<lparr>clients = [live_client], net = [ok_reply ''{"status":0}''],
           posts = [(productionReceiptVerificationURL, example_json)]\<rparr> =
      posts (example_state live_client
        [Inr \<lparr>StatusCode = 500, StatusText = ''500 Internal Server Error'', Body = Inr []\<rparr>,
         ok_reply ''{"status":0}'']) @ [(verificationURL live_client, example_json)]) \<and>
   (deref (clients (example_state live_client
        [ok_reply ''<html>'', ok_reply ''{"status":0}''])) (Ptr 0) = Some live_client \<and>
    post example_env (Ptr 0) () (bytes_NewReader example_json) (verificationURL live_client)
      (example_state live_client [ok_reply ''<html>'', ok_reply ''{"status":0}'']) =
      ((Some ''<html>'', None),
       \<lparr>clients = [live_client], net = [ok_reply ''{"status":0}''],
        posts = [(productionReceiptVerificationURL, example_json)]\<rparr>) \<and>
    json_Unmarshal example_env (bytes_Map dropControl (slice (Some ''<html>''))) =
      Inl (Foreign ''invalid character'')) \<and>
   (Verify example_env (Ptr 0) () (Receipt ''abc'')
      (example_state live_client [ok_reply ''<html>'', ok_reply ''{"status":0}'']) =
      (Return (Some ''<html>'', None,
         Some (errors_Wrap (Foreign ''invalid character'')
                 ''could not unmarshal app store response'')),
       \<lparr>clients = [live_client], net = [ok_reply ''{"status":0}''],
        posts = [(productionReceiptVerificationURL, example_json)]\<rparr>) \<and>
    posts \<lparr>clients = [live_client], net = [ok_reply ''{"status":0}''],
           posts = [(productionReceiptVerificationURL, example_json)]\<rparr> =
      posts (example_state live_client [ok_reply ''<html>'', ok_reply ''{"status":0}'']) @
        [(verificationURL live_client, example_json)])\<close>
  (is "(?h1 \<and> ?h2 \<and> ?h3) \<and> ?transport \<and> (?k1 \<and> ?k3 \<and> ?k4) \<and> ?decode")
proof -
  have h1: ?h1 and h2: ?h2 and h3: ?h3
    by code_simp+
  have transport: ?transport
    using C5_first_failure_is_final [OF h1 h2, THEN conjunct1] h3 by (rule mp)
  have k1: ?k1 and k3: ?k3 and k4: ?k4
    by code_simp+
  have decode: ?decode
    using C5_first_failure_is_final [OF k1 h2, THEN conjunct2] conjI [OF k3 k4] by (rule mp)
  show ?thesis using h1 h2 h3 transport k1 k3 k4 decode by blast
qed

text \<open>
  C8: when a transport call succeeds and its body does not decode after the control
  characters are dropped, \<^verbatim>\<open>Verify\<close> returns the body as received, a nil response,
  and the decoder's error wrapped with "could not unmarshal app store response". This
  holds of the first call and of the resend.
\<close>

theorem C8_undecodable_body_is_returned_raw:
  fixes E :: "('req, 'z ReceiptResponse_scheme, 'ctx, 'w) env" and s s1 s2 :: "'w state"
  assumes "deref (clients s) c = Some cl"
    and "json_Marshal E receiptRequest = Inr reqJSON"
    and "json_Unmarshal E (bytes_Map dropControl raw) = Inl e"
  shows
    "(post E c ctx (bytes_NewReader reqJSON) (verificationURL cl) s = ((Some raw, None), s1) \<longrightarrow>
        Verify E c ctx receiptRequest s =
          (Return (Some raw, None,
             Some (errors_Wrap e ''could not unmarshal app store response'')), s1)) \<and>
     (autofixEnvironment cl \<and>
      post E c ctx (bytes_NewReader reqJSON) (verificationURL cl) s = ((body1, None), s1) \<and>
      json_Unmarshal E (bytes_Map dropControl (slice body1)) = Inr r \<and>
      (Status r = ReceiptResponseStatusSandboxReceiptSentToProduction \<and>
       verificationURL cl = productionReceiptVerificationURL \<and>
       newUrl = sandboxReceiptVerificationURL \<or>
       Status r = ReceiptResponseStatusProductionReceiptSentToSandbox \<and>
       verificationURL cl = sandboxReceiptVerificationURL \<and>
       newUrl = productionReceiptVerificationURL) \<and>
      post E c ctx (bytes_NewReader reqJSON) newUrl s1 = ((Some raw, None), s2) \<longrightarrow>
        Verify E c ctx receiptRequest s =
          (Return (Some raw, None,
             Some (errors_Wrap e ''could not unmarshal app store response'')), s2))"
proof (intro conjI impI)
  assume a: "post E c ctx (bytes_NewReader reqJSON) (verificationURL cl) s =
               ((Some raw, None), s1)"
  have b: "json_Unmarshal E (bytes_Map dropControl (slice (Some raw))) = Inl e"
    using assms(3) by simp
  show "Verify E c ctx receiptRequest s =
          (Return (Some raw, None,
             Some (errors_Wrap e ''could not unmarshal app store response'')), s1)"
    using assms(1,2) queryStore_undecoded [OF a b] by (simp add: Verify_def)
next
  assume h: "autofixEnvironment cl \<and>
      post E c ctx (bytes_NewReader reqJSON) (verificationURL cl) s = ((body1, None), s1) \<and>
      json_Unmarshal E (bytes_Map dropControl (slice body1)) = Inr r \<and>
      (Status r = ReceiptResponseStatusSandboxReceiptSentToProduction \<and>
       verificationURL cl = productionReceiptVerificationURL \<and>
       newUrl = sandboxReceiptVerificationURL \<or>
       Status r = ReceiptResponseStatusProductionReceiptSentToSandbox \<and>
       verificationURL cl = sandboxReceiptVerificationURL \<and>
       newUrl = productionReceiptVerificationURL) \<and>
      post E c ctx (bytes_NewReader reqJSON) newUrl s1 = ((Some raw, None), s2)"
  then have autofix: "autofixEnvironment cl"
    and p1: "post E c ctx (bytes_NewReader reqJSON) (verificationURL cl) s = ((body1, None), s1)"
    and d1: "json_Unmarshal E (bytes_Map dropControl (slice body1)) = Inr r"
    and p2: "post E c ctx (bytes_NewReader reqJSON) newUrl s1 = ((Some raw, None), s2)"
    by simp_all
  from h have mismatch:
    "Status r = ReceiptResponseStatusSandboxReceiptSentToProduction \<and>
       verificationURL cl = productionReceiptVerificationURL \<and>
       newUrl = sandboxReceiptVerificationURL \<or>
     Status r = ReceiptResponseStatusProductionReceiptSentToSandbox \<and>
       verificationURL cl = sandboxReceiptVerificationURL \<and>
       newUrl = productionReceiptVerificationURL"
    by blast
  have q1: "queryStore E c ctx (bytes_NewReader reqJSON) (verificationURL cl) s =
              ((body1, Some r, None), s1)"
    using p1 d1 by (rule queryStore_decoded)
  have cl1: "deref (clients s1) c = Some cl"
    using post_clients_eq [OF p1] assms(1) by simp
  have b: "json_Unmarshal E (bytes_Map dropControl (slice (Some raw))) = Inl e"
    using assms(3) by simp
  note q2 = queryStore_undecoded [OF p2 b]
  from mismatch show "Verify E c ctx receiptRequest s =
          (Return (Some raw, None,
             Some (errors_Wrap e ''could not unmarshal app store response'')), s2)"
    using assms(1,2) autofix q1 cl1 q2 statuses_distinct
    by (auto simp: Verify_def checkResendNeeded_def isProduction_def isSandbox_def)
qed

theorem C8_undecodable_body_is_returned_raw_witness:
  \<open>(deref (clients (example_state live_client
        [ok_reply (''{"status":'' @ [CHR 0x07] @ ''none}''), ok_reply ''{"status":0}'']))
      (Ptr 0) = Some live_client \<and>
    json_Marshal example_env (Receipt ''abc'') = Inr example_json \<and>
    json_Unmarshal example_env (bytes_Map dropControl (''{"status":'' @ [CHR 0x07] @ ''none}'')) =
      Inl (Foreign ''invalid character'') \<and>
    post example_env (Ptr 0) () (bytes_NewReader example_json) (verificationURL live_client)
      (example_state live_client
        [ok_reply (''{"status":'' @ [CHR 0x07] @ ''none}''), ok_reply ''{"status":0}'']) =
      ((Some (''{"status":'' @ [CHR 0x07] @ ''none}''), None),
       \<lparr>clients = [live_client], net = [ok_reply ''{"status":0}''],
        posts = [(productionReceiptVerificationURL, example_json)]\<rparr>)) \<and>
   Verify example_env (Ptr 0) () (Receipt ''abc'')
     (example_state live_client
        [ok_reply (''{"status":'' @ [CHR 0x07] @ ''none}''), ok_reply ''{"status":0}'']) =
     (Return (Some (''{"status":'' @ [CHR 0x07] @ ''none}''), None,
        Some (errors_Wrap (Foreign ''invalid character'')
                ''could not unmarshal app store response'')),
      \<lparr>clients = [live_client], net = [ok_reply ''{"status":0}''],
       posts = [(productionReceiptVerificationURL, example_json)]\<rparr>) \<and>
   bytes_Map dropControl (''{"status":'' @ [CHR 0x07] @ ''none}'') = ''{"status":none}'' \<and>
   (deref (clients (example_state live_client
        [ok_reply ''{"status":21007}'', ok_reply (''{"status":'' @ [CHR 0x07] @ ''none}'')]))
      (Ptr 0) = Some live_client \<and>
    autofixEnvironment live_client \<and>
    post example_env (Ptr 0) () (bytes_NewReader example_json) (verificationURL live_client)
      (example_state live_client
        [ok_reply ''{"status":21007}'', ok_reply (''{"status":'' @ [CHR 0x07] @ ''none}'')]) =
      ((Some ''{"status":21007}'', None),
       \<lparr>clients = [live_client],
        net = [ok_reply (''{"status":'' @ [CHR 0x07] @ ''none}'')],
        posts = [(productionReceiptVerificationURL, example_json)]\<rparr>) \<and>
    json_Unmarshal example_env (bytes_Map dropControl (slice (Some ''{"status":21007}''))) =
      Inr \<lparr>Status = 21007\<rparr> \<and>
    (Status \<lparr>Status = 21007\<rparr> = ReceiptResponseStatusSandboxReceiptSentToProduction \<and>
     verificationURL live_client = productionReceiptVerificationURL \<and>
     sandboxReceiptVerificationURL = sandboxReceiptVerificationURL \<or>
     Status \<lparr>Status = 21007\<rparr> = ReceiptResponseStatusProductionReceiptSentToSandbox \<and>
     verificationURL live_client = sandboxReceiptVerificationURL \<and>
     sandboxReceiptVerificationURL = productionReceiptVerificationURL) \<and>
    post example_env (Ptr 0) () (bytes_NewReader example_json) sandboxReceiptVerificationURL
      \<lparr>clients = [live_client],
       net = [ok_reply (''{"status":'' @ [CHR 0x07] @ ''none}'')],
       posts = [(productionReceiptVerificationURL, example_json)]\<rparr> =
      ((Some (''{"status":'' @ [CHR 0x07] @ ''none}''), None),
       \<lparr>clients = [live_client], net = [],
        posts = [(productionReceiptVerificationURL, example_json),
                 (sandboxReceiptVerificationURL, example_json)]\<rparr>)) \<and>
   Verify example_env (Ptr 0) () (Receipt ''abc'')
     (example_state live_client
        [ok_reply ''{"status":21007}'', ok_reply (''{"status":'' @ [CHR 0x07] @ ''none}'')]) =
     (Return (Some (''{"status":'' @ [CHR 0x07] @ ''none}''), None,
        Some (errors_Wrap (Foreign ''invalid character'')
                ''could not unmarshal app store response'')),
      \<lparr>clients = [live_client], net = [],
       posts = [(productionReceiptVerificationURL, example_json),
                (sandboxReceiptVerificationURL, example_json)]\<rparr>)\<close>
  (is "(?h1 \<and> ?h2 \<and> ?h3 \<and> ?h4) \<and> ?first \<and> ?stripped \<and>
       (?k1 \<and> ?k2 \<and> ?k3 \<and> ?k4 \<and> ?k5 \<and> ?k6) \<and> ?resend")
proof -
  have h1: ?h1 and h2: ?h2 and h3: ?h3 and h4: ?h4
    by code_simp+
  have first: ?first
    using C8_undecodable_body_is_returned_raw [OF h1 h2 h3, THEN conjunct1] h4 by (rule mp)
  have stripped: ?stripped
    by code_simp
  have k1: ?k1 and k2: ?k2 and k3: ?k3 and k4: ?k4 and k5: ?k5 and k6: ?k6
    by code_simp+
  have resend: ?resend
    using C8_undecodable_body_is_returned_raw [OF k1 h2 h3, THEN conjunct2] k2 k3 k4 k5 k6
    by blast
  show ?thesis using h1 h2 h3 h4 first stripped k1 k2 k3 k4 k5 k6 resend by blast
qed

text \<open>
  C1: with auto-fix on, after a first transport call and decode that succeed,
  \<^verbatim>\<open>Verify\<close> resends to the sandbox URL when the status is 21007 and the client is
  on the production URL, resends to the production URL when the status is 21008 and
  the client is on the sandbox URL, and does not resend otherwise. The resend carries
  the same request bytes, and its body, response and error are what \<^verbatim>\<open>Verify\<close>
  returns. A client on the sandbox URL that gets 21007 returns the first result.
\<close>

theorem C1_resend_iff_mismatch:
  fixes E :: "('req, 'z ReceiptResponse_scheme, 'ctx, 'w) env" and s s1 :: "'w state"
  assumes "deref (clients s) c = Some cl"
    and "autofixEnvironment cl"
    and "json_Marshal E receiptRequest = Inr reqJSON"
    and "post E c ctx (bytes_NewReader reqJSON) (verificationURL cl) s = ((body, None), s1)"
    and "json_Unmarshal E (bytes_Map dropControl (slice body)) = Inr r"
  shows
    "Verify E c ctx receiptRequest s =
       (if Status r = ReceiptResponseStatusSandboxReceiptSentToProduction \<and>
           verificationURL cl = productionReceiptVerificationURL
        then (case queryStore E c ctx (bytes_NewReader reqJSON)
                     sandboxReceiptVerificationURL s1 of
                (res, s2) \<Rightarrow> (Return res, s2))
        else if Status r = ReceiptResponseStatusProductionReceiptSentToSandbox \<and>
           verificationURL cl = sandboxReceiptVerificationURL
        then (case queryStore E c ctx (bytes_NewReader reqJSON)
                     productionReceiptVerificationURL s1 of
                (res, s2) \<Rightarrow> (Return res, s2))
        else (Return (body, Some r, None), s1)) \<and>
     posts (snd (Verify E c ctx receiptRequest s)) =
       posts s @ (verificationURL cl, reqJSON) #
         (if Status r = ReceiptResponseStatusSandboxReceiptSentToProduction \<and>
             verificationURL cl = productionReceiptVerificationURL
          then [(sandboxReceiptVerificationURL, reqJSON)]
          else if Status r = ReceiptResponseStatusProductionReceiptSentToSandbox \<and>
             verificationURL cl = sandboxReceiptVerificationURL
          then [(productionReceiptVerificationURL, reqJSON)]
          else []) \<and>
     (Status r = ReceiptResponseStatusSandboxReceiptSentToProduction \<and>
      verificationURL cl = sandboxReceiptVerificationURL \<longrightarrow>
        Verify E c ctx receiptRequest s = (Return (body, Some r, None), s1))"
proof -
  have q1: "queryStore E c ctx (bytes_NewReader reqJSON) (verificationURL cl) s =
              ((body, Some r, None), s1)"
    using assms(4,5) by (rule queryStore_decoded)
  have cl1: "deref (clients s1) c = Some cl"
    using post_clients_eq [OF assms(4)] assms(1) by simp
  have p1: "posts s1 = posts s @ [(verificationURL cl, reqJSON)]"
    using post_posts_eq [OF assms(4)] by (simp add: unread_NewReader)
  have v: "Verify E c ctx receiptRequest s =
       (if Status r = ReceiptResponseStatusSandboxReceiptSentToProduction \<and>
           verificationURL cl = productionReceiptVerificationURL
        then (case queryStore E c ctx (bytes_NewReader reqJSON)
                     sandboxReceiptVerificationURL s1 of
                (res, s2) \<Rightarrow> (Return res, s2))
        else if Status r = ReceiptResponseStatusProductionReceiptSentToSandbox \<and>
           verificationURL cl = sandboxReceiptVerificationURL
        then (case queryStore E c ctx (bytes_NewReader reqJSON)
                     productionReceiptVerificationURL s1 of
                (res, s2) \<Rightarrow> (Return res, s2))
        else (Return (body, Some r, None), s1))"
    using assms(1,2,3) q1 cl1 statuses_distinct
    by (simp add: Verify_def checkResendNeeded_def isProduction_def isSandbox_def)
  have q2: "posts (snd (case queryStore E c ctx (bytes_NewReader reqJSON) url s1 of
                          (res, s2) \<Rightarrow> (Return res, s2))) =
            posts s @ [(verificationURL cl, reqJSON), (url, reqJSON)]" for url
    by (auto simp: p1 unread_NewReader split: prod.splits dest!: queryStore_posts_eq)
  have p: "posts (snd (Verify E c ctx receiptRequest s)) =
       posts s @ (verificationURL cl, reqJSON) #
         (if Status r = ReceiptResponseStatusSandboxReceiptSentToProduction \<and>
             verificationURL cl = productionReceiptVerificationURL
          then [(sandboxReceiptVerificationURL, reqJSON)]
          else if Status r = ReceiptResponseStatusProductionReceiptSentToSandbox \<and>
             verificationURL cl = sandboxReceiptVerificationURL
          then [(productionReceiptVerificationURL, reqJSON)]
          else [])"
    unfolding v using q2 p1 by simp
  have w: "Status r = ReceiptResponseStatusSandboxReceiptSentToProduction \<and>
      verificationURL cl = sandboxReceiptVerificationURL \<longrightarrow>
        Verify E c ctx receiptRequest s = (Return (body, Some r, None), s1)"
    unfolding v using urls_distinct statuses_distinct by simp
  show ?thesis using v p w by (intro conjI)
qed

theorem C1_resend_iff_mismatch_witness:
  \<open>(deref (clients (example_state live_client
        [ok_reply ''{"status":21007}'', ok_reply ''{"status":0}''])) (Ptr 0) = Some live_client \<and>
    autofixEnvironment live_client \<and>
    json_Marshal example_env (Receipt ''abc'') = Inr example_json \<and>
    post example_env (Ptr 0) () (bytes_NewReader example_json) (verificationURL live_client)
      (example_state live_client [ok_reply ''{"status":21007}'', ok_reply ''{"status":0}'']) =
      ((Some ''{"status":21007}'', None),
       \<lparr>clients = [live_client], net = [ok_reply ''{"status":0}''],
        posts = [(productionReceiptVerificationURL, example_json)]\<rparr>) \<and>
    json_Unmarshal example_env (bytes_Map dropControl (slice (Some ''{"status":21007}''))) =
      Inr \<lparr>Status = 21007\<rparr>) \<and>
   Verify example_env (Ptr 0) () (Receipt ''abc'')
     (example_state live_client [ok_reply ''{"status":21007}'', ok_reply ''{"status":0}'']) =
     (Return (Some ''{"status":0}'', Some \<lparr>Status = 0\<rparr>, None),
      \<lparr>clients = [live_client], net = [],
       posts = [(productionReceiptVerificationURL, example_json),
                (sandboxReceiptVerificationURL, example_json)]\<rparr>) \<and>
   (deref (clients (example_state sandbox_client
        [ok_reply ''{"status":21007}'', ok_reply ''{"status":0}''])) (Ptr 0) = Some sandbox_client \<and>
    autofixEnvironment sandbox_client \<and>
    post example_env (Ptr 0) () (bytes_NewReader example_json) (verificationURL sandbox_client)
      (example_state sandbox_client [ok_reply ''{"status":21007}'', ok_reply ''{"status":0}'']) =
      ((Some ''{"status":21007}'', None),
       \<lparr>clients = [sandbox_client], net = [ok_reply ''{"status":0}''],
        posts = [(sandboxReceiptVerificationURL, example_json)]\<rparr>)) \<and>
   Verify example_env (Ptr 0) () (Receipt ''abc'')
     (example_state sandbox_client [ok_reply ''{"status":21007}'', ok_reply ''{"status":0}'']) =
     (Return (Some ''{"status":21007}'', Some \<lparr>Status = 21007\<rparr>, None),
      \<lparr>clients = [sandbox_client], net = [ok_reply ''{"status":0}''],
       posts = [(sandboxReceiptVerificationURL, example_json)]\<rparr>)\<close>
  (is "(?h1 \<and> ?h2 \<and> ?h3 \<and> ?h4 \<and> ?h5) \<and> ?live \<and> (?k1 \<and> ?k2 \<and> ?k4) \<and> ?sandbox")
proof -
  have h1: ?h1 and h2: ?h2 and h3: ?h3 and h4: ?h4 and h5: ?h5
    by code_simp+
  have live: ?live
    by (rule trans [OF C1_resend_iff_mismatch [OF h1 h2 h3 h4 h5, THEN conjunct1]]) code_simp
  have k1: ?k1 and k2: ?k2 and k4: ?k4
    by code_simp+
  have c: "Status \<lparr>Status = 21007\<rparr> = ReceiptResponseStatusSandboxReceiptSentToProduction \<and>
           verificationURL sandbox_client = sandboxReceiptVerificationURL"
    by code_simp
  have sandbox: ?sandbox
    using C1_resend_iff_mismatch [OF k1 k2 h3 k4 h5, THEN conjunct2, THEN conjunct2] c
    by (rule mp)
  show ?thesis using h1 h2 h3 h4 h5 live k1 k2 k4 sandbox by (intro conjI)
qed

text \<open>
  C4: with auto-fix off (\<^verbatim>\<open>WithoutEnvAutoFix\<close> is what turns it off), \<^verbatim>\<open>Verify\<close>
  never resends, whatever the status and the configured URL: no call adds more than one
  entry to the log of transport calls, and for a request that serialises it makes
  exactly one transport call, to the configured URL, and returns that call's body,
  response and error as they are. (A request that does not serialise makes no
  transport call: that is C6.)
\<close>

theorem C4_no_resend_without_autofix:
  fixes E :: "('req, 'z ReceiptResponse_scheme, 'ctx, 'w) env" and s :: "'w state"
  assumes "deref (clients s) c = Some cl"
    and "\<not> autofixEnvironment cl"
  shows
    "(\<exists>extra. posts (snd (Verify E c ctx receiptRequest s)) = posts s @ extra \<and>
        length extra \<le> 1) \<and>
     (\<forall>reqJSON. json_Marshal E receiptRequest = Inr reqJSON \<longrightarrow>
        Verify E c ctx receiptRequest s =
          (case queryStore E c ctx (bytes_NewReader reqJSON) (verificationURL cl) s of
             (res, s1) \<Rightarrow> (Return res, s1)) \<and>
        posts (snd (Verify E c ctx receiptRequest s)) =
          posts s @ [(verificationURL cl, reqJSON)]) \<and>
     (\<forall>h cl0. deref h c = Some cl0 \<longrightarrow>
        fst (WithoutEnvAutoFix c h) = Return c \<and>
        deref (snd (WithoutEnvAutoFix c h)) c = Some (cl0\<lparr>autofixEnvironment := False\<rparr>))"
proof -
  have v: "Verify E c ctx receiptRequest s =
       (case queryStore E c ctx (bytes_NewReader reqJSON) (verificationURL cl) s of
          (res, s1) \<Rightarrow> (Return res, s1))"
    if "json_Marshal E receiptRequest = Inr reqJSON" for reqJSON
    using assms that
    by (auto simp: Verify_def split: prod.splits option.splits dest!: queryStore_clients_eq)
  have p: "posts (snd (Verify E c ctx receiptRequest s)) =
             posts s @ [(verificationURL cl, reqJSON)]"
    if "json_Marshal E receiptRequest = Inr reqJSON" for reqJSON
    unfolding v [OF that]
    by (auto simp: unread_NewReader split: prod.splits dest!: queryStore_posts_eq)
  have n: "\<exists>extra. posts (snd (Verify E c ctx receiptRequest s)) = posts s @ extra \<and>
             length extra \<le> 1"
  proof (cases "json_Marshal E receiptRequest")
    case (Inl e)
    then show ?thesis by (simp add: Verify_def)
  next
    case (Inr reqJSON)
    then show ?thesis using p by simp
  qed
  have w: "fst (WithoutEnvAutoFix c h) = Return c \<and>
        deref (snd (WithoutEnvAutoFix c h)) c = Some (cl0\<lparr>autofixEnvironment := False\<rparr>)"
    if "deref h c = Some cl0" for h cl0
    using that by (cases c) (auto simp: WithoutEnvAutoFix_def split: if_splits)
  show ?thesis using v p n w by blast
qed

theorem C4_no_resend_without_autofix_witness:
  \<open>(deref (clients \<lparr>clients = snd (WithoutEnvAutoFix (Ptr 0) (snd (NewVerificationClient []))),
                    net = [ok_reply ''{"status":21007}'', ok_reply ''{"status":0}''],
                    posts = []\<rparr>) (Ptr 0) =
      Some \<lparr>verificationURL = productionReceiptVerificationURL, autofixEnvironment = False\<rparr> \<and>
    \<not> autofixEnvironment
        \<lparr>verificationURL = productionReceiptVerificationURL, autofixEnvironment = False\<rparr> \<and>
    json_Marshal example_env (Receipt ''abc'') = Inr example_json \<and>
    deref (snd (NewVerificationClient [])) (Ptr 0) = Some live_client) \<and>
   Verify example_env (Ptr 0) () (Receipt ''abc'')
     \<lparr>clients = snd (WithoutEnvAutoFix (Ptr 0) (snd (NewVerificationClient []))),
      net = [ok_reply ''{"status":21007}'', ok_reply ''{"status":0}''],
      posts = []\<rparr> =
     (Return (Some ''{"status":21007}'', Some \<lparr>Status = 21007\<rparr>, None),
      \<lparr>clients = [\<lparr>verificationURL = productionReceiptVerificationURL,
                    autofixEnvironment = False\<rparr>],
       net = [ok_reply ''{"status":0}''],
       posts = [(productionReceiptVerificationURL, example_json)]\<rparr>) \<and>
   (fst (WithoutEnvAutoFix (Ptr 0) (snd (NewVerificationClient []))) = Return (Ptr 0) \<and>
    deref (snd (WithoutEnvAutoFix (Ptr 0) (snd (NewVerificationClient [])))) (Ptr 0) =
      Some (live_client\<lparr>autofixEnvironment := False\<rparr>))\<close>
  (is "(?h1 \<and> ?h2 \<and> ?h3 \<and> ?h4) \<and> ?v \<and> ?w")
proof -
  have h1: ?h1 and h2: ?h2 and h3: ?h3 and h4: ?h4
    by code_simp+
  note inst = C4_no_resend_without_autofix [OF h1 h2, of example_env "()" "Receipt ''abc''"]
  have "Verify example_env (Ptr 0) () (Receipt ''abc'')
     \<lparr>clients = snd (WithoutEnvAutoFix (Ptr 0) (snd (NewVerificationClient []))),
      net = [ok_reply ''{\"status\":21007}'', ok_reply ''{\"status\":0}''],
      posts = []\<rparr> =
     (case queryStore example_env (Ptr 0) () (bytes_NewReader example_json)
        (verificationURL \<lparr>verificationURL = productionReceiptVerificationURL,
                           autofixEnvironment = False\<rparr>)
        \<lparr>clients = snd (WithoutEnvAutoFix (Ptr 0) (snd (NewVerificationClient []))),
         net = [ok_reply ''{\"status\":21007}'', ok_reply ''{\"status\":0}''],
         posts = []\<rparr> of
      (res, s1) \<Rightarrow> (Return res, s1))"
    using inst h3 by blast
  also have "\<dots> = (Return (Some ''{\"status\":21007}'', Some \<lparr>Status = 21007\<rparr>, None),
      \<lparr>clients = [\<lparr>verificationURL = productionReceiptVerificationURL,
                    autofixEnvironment = False\<rparr>],
       net = [ok_reply ''{\"status\":0}''],
       posts = [(productionReceiptVerificationURL, example_json)]\<rparr>)"
    by code_simp
  finally have v: ?v .
  have w: ?w
    using inst h4 by blast
  show ?thesis using h1 h2 h3 h4 v w by blast
qed

text \<open>
  C2: a call of \<^verbatim>\<open>Verify\<close> makes at most two calls of the transport, whatever the
  replies are, also when the second reply carries a mismatch status again: the log of
  transport calls grows by at most two entries.
\<close>

theorem C2_at_most_two_posts:
  "\<exists>extra. posts (snd (Verify E c ctx receiptRequest s)) = posts s @ extra \<and> length extra \<le> 2"
  by (auto simp: Verify_def
      split: sum.splits option.splits prod.splits outcome.splits
      dest!: queryStore_posts_eq)

theorem C2_at_most_two_posts_witness:
  \<open>(\<exists>extra.
      posts (snd (Verify example_env (Ptr 0) () (Receipt ''abc'')
        (example_state live_client
           [ok_reply ''{"status":21007}'', ok_reply ''{"status":21008}'',
            ok_reply ''{"status":0}'']))) =
      posts (example_state live_client
           [ok_reply ''{"status":21007}'', ok_reply ''{"status":21008}'',
            ok_reply ''{"status":0}'']) @ extra \<and> length extra \<le> 2) \<and>
   Verify example_env (Ptr 0) () (Receipt ''abc'')
     (example_state live_client
        [ok_reply ''{"status":21007}'', ok_reply ''{"status":21008}'',
         ok_reply ''{"status":0}'']) =
     (Return (Some ''{"status":21008}'', Some \<lparr>Status = 21008\<rparr>, None),
      \<lparr>clients = [live_client], net = [ok_reply ''{"status":0}''],
       posts = [(productionReceiptVerificationURL, example_json),
                (sandboxReceiptVerificationURL, example_json)]\<rparr>)\<close>
proof (rule conjI)
  show \<open>\<exists>extra.
      posts (snd (Verify example_env (Ptr 0) () (Receipt ''abc'')
        (example_state live_client
           [ok_reply ''{"status":21007}'', ok_reply ''{"status":21008}'',
            ok_reply ''{"status":0}'']))) =
      posts (example_state live_client
           [ok_reply ''{"status":21007}'', ok_reply ''{"status":21008}'',
            ok_reply ''{"status":0}'']) @ extra \<and> length extra \<le> 2\<close>
    by (rule C2_at_most_two_posts)
  show \<open>Verify example_env (Ptr 0) () (Receipt ''abc'')
     (example_state live_client
        [ok_reply ''{"status":21007}'', ok_reply ''{"status":21008}'',
         ok_reply ''{"status":0}'']) =
     (Return (Some ''{"status":21008}'', Some \<lparr>Status = 21008\<rparr>, None),
      \<lparr>clients = [live_client], net = [ok_reply ''{"status":0}''],
       posts = [(productionReceiptVerificationURL, example_json),
                (sandboxReceiptVerificationURL, example_json)]\<rparr>)\<close>
    by code_simp
qed

text \<open>
  C3: \<^verbatim>\<open>Verify\<close> leaves the store of clients as it was, so the client's URL and its
  auto-fix flag are the same after the call as before, with or without a resend; the
  next call starts at the configured URL again.
\<close>

theorem C3_configuration_unchanged:
  fixes E :: "('req, 'z ReceiptResponse_scheme, 'ctx, 'w) env" and s :: "'w state"
  shows "clients (snd (Verify E c ctx receiptRequest s)) = clients s \<and>
   deref (clients (snd (Verify E c ctx receiptRequest s))) c = deref (clients s) c \<and>
   (\<forall>cl ctx' receiptRequest' reqJSON'.
      deref (clients s) c = Some cl \<and> json_Marshal E receiptRequest' = Inr reqJSON' \<longrightarrow>
      (\<exists>rest. posts (snd (Verify E c ctx' receiptRequest' (snd (Verify E c ctx receiptRequest s)))) =
         posts (snd (Verify E c ctx receiptRequest s)) @ (verificationURL cl, reqJSON') # rest))"
proof -
  have a: "clients (snd (Verify E c ctx receiptRequest s)) = clients s" for ctx receiptRequest and s :: "'w state"
    by (auto simp: Verify_def
        split: sum.splits option.splits prod.splits outcome.splits
        dest!: queryStore_clients_eq)
  have b: "\<exists>rest. posts (snd (Verify E c ctx' q t)) = posts t @ (verificationURL cl, j) # rest"
    if "deref (clients t) c = Some cl" "json_Marshal E q = Inr j" for ctx' q j cl and t :: "'w state"
    using that
    by (auto simp: Verify_def unread_NewReader
        split: sum.splits option.splits prod.splits outcome.splits
        dest!: queryStore_posts_eq)
  show ?thesis using a b by simp
qed

theorem C3_configuration_unchanged_witness:
  \<open>(deref (clients (example_state live_client
        [ok_reply ''{"status":21007}'', ok_reply ''{"status":0}'',
         ok_reply ''{"status":21007}'', ok_reply ''{"status":0}''])) (Ptr 0) = Some live_client \<and>
    json_Marshal example_env (Receipt ''xyz'') = Inr ''{"receipt-data":"xyz"}'') \<and>
   (\<exists>rest.
      posts (snd (Verify example_env (Ptr 0) () (Receipt ''xyz'')
        (snd (Verify example_env (Ptr 0) () (Receipt ''abc'')
          (example_state live_client
            [ok_reply ''{"status":21007}'', ok_reply ''{"status":0}'',
             ok_reply ''{"status":21007}'', ok_reply ''{"status":0}'']))))) =
      posts (snd (Verify example_env (Ptr 0) () (Receipt ''abc'')
          (example_state live_client
            [ok_reply ''{"status":21007}'', ok_reply ''{"status":0}'',
             ok_reply ''{"status":21007}'', ok_reply ''{"status":0}'']))) @
      (verificationURL live_client, ''{"receipt-data":"xyz"}'') # rest) \<and>
   clients (snd (Verify example_env (Ptr 0) () (Receipt ''abc'')
          (example_state live_client
            [ok_reply ''{"status":21007}'', ok_reply ''{"status":0}'',
             ok_reply ''{"status":21007}'', ok_reply ''{"status":0}'']))) = [live_client] \<and>
   posts (snd (Verify example_env (Ptr 0) () (Receipt ''xyz'')
        (snd (Verify example_env (Ptr 0) () (Receipt ''abc'')
          (example_state live_client
            [ok_reply ''{"status":21007}'', ok_reply ''{"status":0}'',
             ok_reply ''{"status":21007}'', ok_reply ''{"status":0}'']))))) =
     [(productionReceiptVerificationURL, ''{"receipt-data":"abc"}''),
      (sandboxReceiptVerificationURL, ''{"receipt-data":"abc"}''),
      (productionReceiptVerificationURL, ''{"receipt-data":"xyz"}''),
      (sandboxReceiptVerificationURL, ''{"receipt-data":"xyz"}'')]\<close>
  (is "(?h1 \<and> ?h2) \<and> ?next \<and> ?same \<and> ?log")
proof -
  have h1: ?h1 and h2: ?h2
    by code_simp+
  have "next": ?next
    using C3_configuration_unchanged [of example_env "Ptr 0" "()" "Receipt ''abc''"
        "example_state live_client
            [ok_reply ''{\"status\":21007}'', ok_reply ''{\"status\":0}'',
             ok_reply ''{\"status\":21007}'', ok_reply ''{\"status\":0}'']"] h1 h2
    by blast
  have same: ?same and log: ?log
    by code_simp+
  show ?thesis using h1 h2 "next" same log by (intro conjI)
qed

subsection \<open>Runes: decoding, encoding, and the bytes handed to the JSON decoder\<close>

lemma of_char_bounds: "0 \<le> (of_char c :: int)" "(of_char c :: int) < 256"
proof -
  have "(of_char c :: int) = of_char c mod 256" by simp
  then show "0 \<le> (of_char c :: int)" "(of_char c :: int) < 256"
    by (metis pos_mod_sign zero_less_numeral, metis pos_mod_bound zero_less_numeral)
qed

lemma cont_mod: "(128::int) \<le> b \<Longrightarrow> b \<le> 191 \<Longrightarrow> b mod 64 = b - 128"
  by presburger

lemma lead2_mod: "(192::int) \<le> p \<Longrightarrow> p < 224 \<Longrightarrow> p mod 32 = p - 192"
  by presburger

lemma lead3_mod: "(224::int) \<le> p \<Longrightarrow> p < 240 \<Longrightarrow> p mod 16 = p - 224"
  by presburger

lemma lead4_mod: "(240::int) \<le> p \<Longrightarrow> p < 248 \<Longrightarrow> p mod 8 = p - 240"
  by presburger

lemma split2:
  fixes r :: int
  obtains a m where "r = a * 64 + m" "0 \<le> m" "m < 64" "r div 64 = a" "r mod 64 = m"
proof
  show "r = r div 64 * 64 + r mod 64" by simp
  show "0 \<le> r mod 64" "r mod 64 < 64" by simp_all
qed simp_all

lemma split3:
  fixes r :: int
  obtains a b m where "r = a * 4096 + b * 64 + m" "0 \<le> b" "b < 64" "0 \<le> m" "m < 64"
    "r div 4096 = a" "r div 64 mod 64 = b" "r mod 64 = m"
proof
  have d: "r div 4096 = r div 64 div 64"
    using zdiv_zmult2_eq [of 64 r 64] by simp
  have "r = r div 64 * 64 + r mod 64" by simp
  moreover have "r div 64 = r div 64 div 64 * 64 + r div 64 mod 64" by simp
  ultimately show "r = r div 4096 * 4096 + r div 64 mod 64 * 64 + r mod 64"
    unfolding d by linarith
  show "0 \<le> r div 64 mod 64" "r div 64 mod 64 < 64" "0 \<le> r mod 64" "r mod 64 < 64"
    by simp_all
qed simp_all

lemma split4:
  fixes r :: int
  obtains a b c m where "r = a * 262144 + b * 4096 + c * 64 + m"
    "0 \<le> b" "b < 64" "0 \<le> c" "c < 64" "0 \<le> m" "m < 64"
    "r div 262144 = a" "r div 4096 mod 64 = b" "r div 64 mod 64 = c" "r mod 64 = m"
proof
  have d1: "r div 4096 = r div 64 div 64"
    using zdiv_zmult2_eq [of 64 r 64] by simp
  have d2: "r div 262144 = r div 64 div 64 div 64"
    using zdiv_zmult2_eq [of 64 r 4096] d1 by simp
  have "r = r div 64 * 64 + r mod 64" by simp
  moreover have "r div 64 = r div 64 div 64 * 64 + r div 64 mod 64" by simp
  moreover have "r div 64 div 64 = r div 64 div 64 div 64 * 64 + r div 64 div 64 mod 64" by simp
  ultimately show "r = r div 262144 * 262144 + r div 4096 mod 64 * 4096 + r div 64 mod 64 * 64 + r mod 64"
    unfolding d1 d2 by linarith
  show "0 \<le> r div 4096 mod 64" "r div 4096 mod 64 < 64"
    "0 \<le> r div 64 mod 64" "r div 64 mod 64 < 64" "0 \<le> r mod 64" "r mod 64 < 64"
    by simp_all
qed simp_all

lemma DecodeRune_width: "utf8_DecodeRune (c # cs) = (r, w) \<Longrightarrow> 0 < w"
  by (auto simp: Let_def split: if_splits)

lemma DecodeRune_ascii:
  "(if (of_char c :: int) \<ge> 0x80 then utf8_DecodeRune (c # cs) else (of_char c, 1)) =
   utf8_DecodeRune (c # cs)"
  by (simp add: Let_def)

lemma bytes_Map_Cons:
  "bytes_Map f (c # cs) =
     (case utf8_DecodeRune (c # cs) of
        (r, wid) \<Rightarrow>
          (if f r \<ge> 0 then utf8_EncodeRune (f r) else []) @ bytes_Map f (drop wid (c # cs)))"
  unfolding bytes_Map.simps DecodeRune_ascii by (simp add: Let_def)

lemma bytes_Runes_Cons:
  "bytes_Runes (c # cs) =
     (case utf8_DecodeRune (c # cs) of (r, wid) \<Rightarrow> r # bytes_Runes (drop wid (c # cs)))"
  by (simp add: Let_def)

lemma Decode1:
  "(of_char c0 :: int) < 0x80 \<Longrightarrow> utf8_DecodeRune (c0 # rest) = (of_char c0, 1)"
  by (simp add: Let_def)

lemma Decode2:
  assumes "0xC2 \<le> (of_char c0 :: int)" "(of_char c0 :: int) < 0xE0"
    and "0x80 \<le> (of_char c1 :: int)" "(of_char c1 :: int) \<le> 0xBF"
  shows "utf8_DecodeRune (c0 # c1 # rest) = (of_char c0 mod 32 * 64 + of_char c1 mod 64, 2)"
  using assms by (simp add: Let_def)

lemma Decode3:
  assumes "0xE0 \<le> (of_char c0 :: int)" "(of_char c0 :: int) < 0xF0"
    and "(if (of_char c0 :: int) = 0xE0 then 0xA0 else 0x80) \<le> (of_char c1 :: int)"
    and "(of_char c1 :: int) \<le> (if (of_char c0 :: int) = 0xED then 0x9F else 0xBF)"
    and "0x80 \<le> (of_char c2 :: int)" "(of_char c2 :: int) \<le> 0xBF"
  shows "utf8_DecodeRune (c0 # c1 # c2 # rest) =
           (of_char c0 mod 16 * 4096 + of_char c1 mod 64 * 64 + of_char c2 mod 64, 3)"
  using assms by (simp add: Let_def split: if_splits)

lemma Decode4:
  assumes "0xF0 \<le> (of_char c0 :: int)" "(of_char c0 :: int) \<le> 0xF4"
    and "(if (of_char c0 :: int) = 0xF0 then 0x90 else 0x80) \<le> (of_char c1 :: int)"
    and "(of_char c1 :: int) \<le> (if (of_char c0 :: int) = 0xF4 then 0x8F else 0xBF)"
    and "0x80 \<le> (of_char c2 :: int)" "(of_char c2 :: int) \<le> 0xBF"
    and "0x80 \<le> (of_char c3 :: int)" "(of_char c3 :: int) \<le> 0xBF"
  shows "utf8_DecodeRune (c0 # c1 # c2 # c3 # rest) =
           (of_char c0 mod 8 * 262144 + of_char c1 mod 64 * 4096 + of_char c2 mod 64 * 64 +
            of_char c3 mod 64, 4)"
  using assms by (simp add: Let_def split: if_splits)

lemma of_char_char_of: "0 \<le> a \<Longrightarrow> a < 256 \<Longrightarrow> (of_char (char_of (a::int)) :: int) = a"
  by simp

declare utf8_DecodeRune.simps [simp del] bytes_Map.simps [simp del] bytes_Runes.simps [simp del]

lemma valid_RuneError: "valid_rune utf8_RuneError"
  by (simp add: valid_rune_def utf8_RuneError_def)

lemma valid2:
  assumes "0xC2 \<le> (p0::int)" "p0 < 0xE0" "0x80 \<le> (b1::int)" "b1 \<le> 0xBF"
  shows "valid_rune (p0 mod 32 * 64 + b1 mod 64)"
  using assms lead2_mod [of p0] cont_mod [of b1] by (simp add: valid_rune_def)

lemma valid3:
  assumes "0xE0 \<le> (p0::int)" "p0 < 0xF0" "0x80 \<le> (b1::int)" "b1 \<le> 0xBF"
    and "p0 = 0xED \<Longrightarrow> b1 \<le> 0x9F" and "0x80 \<le> (b2::int)" "b2 \<le> 0xBF"
  shows "valid_rune (p0 mod 16 * 4096 + b1 mod 64 * 64 + b2 mod 64)"
proof -
  have e: "p0 mod 16 = p0 - 224" "b1 mod 64 = b1 - 128" "b2 mod 64 = b2 - 128"
    using assms lead3_mod [of p0] cont_mod [of b1] cont_mod [of b2] by simp_all
  show ?thesis
  proof (cases "p0 = 0xED")
    case True
    then show ?thesis using assms unfolding e valid_rune_def by simp
  next
    case False
    then have "p0 \<le> 0xEC \<or> 0xEE \<le> p0" by linarith
    then show ?thesis using assms unfolding e valid_rune_def by auto
  qed
qed

lemma valid4:
  assumes "0xF0 \<le> (p0::int)" "p0 \<le> 0xF4" "0x80 \<le> (b1::int)" "b1 \<le> 0xBF"
    and "p0 = 0xF0 \<Longrightarrow> 0x90 \<le> b1" and "p0 = 0xF4 \<Longrightarrow> b1 \<le> 0x8F"
    and "0x80 \<le> (b2::int)" "b2 \<le> 0xBF" and "0x80 \<le> (b3::int)" "b3 \<le> 0xBF"
  shows "valid_rune (p0 mod 8 * 262144 + b1 mod 64 * 4096 + b2 mod 64 * 64 + b3 mod 64)"
proof -
  have e: "p0 mod 8 = p0 - 240" "b1 mod 64 = b1 - 128" "b2 mod 64 = b2 - 128"
    "b3 mod 64 = b3 - 128"
    using assms lead4_mod [of p0] cont_mod [of b1] cont_mod [of b2] cont_mod [of b3]
    by simp_all
  show ?thesis
  proof (cases "p0 = 0xF4")
    case True
    then show ?thesis using assms unfolding e valid_rune_def by simp
  next
    case False
    then have "p0 = 0xF0 \<or> (0xF1 \<le> p0 \<and> p0 \<le> 0xF3)" using assms by linarith
    then show ?thesis using assms unfolding e valid_rune_def by auto
  qed
qed

lemma DecodeRune_valid:
  assumes "utf8_DecodeRune s = (r, w)"
  shows "valid_rune r"
proof (cases s)
  case Nil
  then show ?thesis using assms by (simp add: utf8_DecodeRune.simps valid_RuneError)
next
  case (Cons c0 p)
  have ascii: "valid_rune (of_char c0)" if "(of_char c0 :: int) < 0x80"
    using that of_char_bounds(1) [of c0] by (simp add: valid_rune_def)
  show ?thesis
    using assms unfolding Cons utf8_DecodeRune.simps Let_def
    by (auto split: if_splits simp: valid_RuneError ascii
        intro!: valid2 valid3 valid4 valid3 [of 224, simplified] valid3 [of 237, simplified]
          valid4 [of 240, simplified] valid4 [of 244, simplified])
qed

lemma Encode1: "0 \<le> r \<Longrightarrow> r \<le> 0x7F \<Longrightarrow> utf8_EncodeRune r = [char_of r]"
  by (simp add: utf8_EncodeRune_def Let_def)

lemma Encode2:
  "0x80 \<le> r \<Longrightarrow> r \<le> 0x7FF \<Longrightarrow>
   utf8_EncodeRune r = [char_of (0xC0 + r div 64), char_of (0x80 + r mod 64)]"
  by (simp add: utf8_EncodeRune_def Let_def)

lemma Encode3:
  "0x800 \<le> r \<Longrightarrow> r \<le> 0xFFFF \<Longrightarrow> \<not> (0xD800 \<le> r \<and> r \<le> 0xDFFF) \<Longrightarrow>
   utf8_EncodeRune r =
     [char_of (0xE0 + r div 4096), char_of (0x80 + r div 64 mod 64), char_of (0x80 + r mod 64)]"
  by (auto simp: utf8_EncodeRune_def Let_def)

lemma Encode4:
  "0x10000 \<le> r \<Longrightarrow> r \<le> 0x10FFFF \<Longrightarrow>
   utf8_EncodeRune r =
     [char_of (0xF0 + r div 262144), char_of (0x80 + r div 4096 mod 64),
      char_of (0x80 + r div 64 mod 64), char_of (0x80 + r mod 64)]"
  by (simp add: utf8_EncodeRune_def Let_def)

lemma Decode_Encode1:
  assumes "0 \<le> r" "r \<le> 0x7F"
  shows "utf8_DecodeRune (utf8_EncodeRune r @ rest) = (r, 1)"
proof -
  have "(of_char (char_of r) :: int) = r"
    using assms by (simp add: of_char_char_of)
  then show ?thesis
    using assms Decode1 [of "char_of r" rest] by (simp add: Encode1)
qed

lemma Decode_Encode2:
  assumes "0x80 \<le> r" "r \<le> 0x7FF"
  shows "utf8_DecodeRune (utf8_EncodeRune r @ rest) = (r, 2)"
proof -
  obtain a m where s: "r = a * 64 + m" "0 \<le> m" "m < 64" "r div 64 = a" "r mod 64 = m"
    by (rule split2)
  have a: "2 \<le> a" "a \<le> 31"
    using assms s(1-3) by linarith+
  have c0: "(of_char (char_of (0xC0 + a)) :: int) = 0xC0 + a"
    using a by (simp add: of_char_char_of)
  have c1: "(of_char (char_of (0x80 + m)) :: int) = 0x80 + m"
    using s(2,3) by (simp add: of_char_char_of)
  have enc: "utf8_EncodeRune r = [char_of (0xC0 + a), char_of (0x80 + m)]"
    using Encode2 [OF assms] by (simp only: s(4,5))
  have "utf8_DecodeRune (char_of (0xC0 + a) # char_of (0x80 + m) # rest) =
          ((0xC0 + a) mod 32 * 64 + (0x80 + m) mod 64, 2)"
    using a s(2,3)
    by (intro Decode2 [of "char_of (0xC0 + a)" "char_of (0x80 + m)" rest, unfolded c0 c1])
      simp_all
  moreover have "(0xC0 + a) mod 32 = a"
    using lead2_mod [of "0xC0 + a"] a by simp
  moreover have "(0x80 + m) mod 64 = m"
    using cont_mod [of "0x80 + m"] s(2,3) by simp
  ultimately show ?thesis
    unfolding enc using s(1) by simp
qed

lemma Decode_Encode3:
  assumes "0x800 \<le> r" "r \<le> 0xFFFF" "\<not> (0xD800 \<le> r \<and> r \<le> 0xDFFF)"
  shows "utf8_DecodeRune (utf8_EncodeRune r @ rest) = (r, 3)"
proof -
  obtain a b m where s: "r = a * 4096 + b * 64 + m" "0 \<le> b" "b < 64" "0 \<le> m" "m < 64"
    "r div 4096 = a" "r div 64 mod 64 = b" "r mod 64 = m"
    by (rule split3)
  have a: "0 \<le> a" "a \<le> 15"
    using assms s(1-5) by linarith+
  have lo: "a = 0 \<Longrightarrow> 32 \<le> b"
    using assms s(1-5) by linarith
  have hi: "a = 13 \<Longrightarrow> b \<le> 31"
    using assms s(1-5) by linarith
  have c0: "(of_char (char_of (0xE0 + a)) :: int) = 0xE0 + a"
    using a by (simp add: of_char_char_of)
  have c1: "(of_char (char_of (0x80 + b)) :: int) = 0x80 + b"
    using s(2,3) by (simp add: of_char_char_of)
  have c2: "(of_char (char_of (0x80 + m)) :: int) = 0x80 + m"
    using s(4,5) by (simp add: of_char_char_of)
  have enc: "utf8_EncodeRune r = [char_of (0xE0 + a), char_of (0x80 + b), char_of (0x80 + m)]"
    using Encode3 [OF assms] by (simp only: s(6-8))
  have "utf8_DecodeRune (char_of (0xE0 + a) # char_of (0x80 + b) # char_of (0x80 + m) # rest) =
          ((0xE0 + a) mod 16 * 4096 + (0x80 + b) mod 64 * 64 + (0x80 + m) mod 64, 3)"
    using a s(2-5) lo hi
    by (intro Decode3 [of "char_of (0xE0 + a)" "char_of (0x80 + b)" "char_of (0x80 + m)" rest,
          unfolded c0 c1 c2])
      simp_all
  moreover have "(0xE0 + a) mod 16 = a"
    using lead3_mod [of "0xE0 + a"] a by simp
  moreover have "(0x80 + b) mod 64 = b"
    using cont_mod [of "0x80 + b"] s(2,3) by simp
  moreover have "(0x80 + m) mod 64 = m"
    using cont_mod [of "0x80 + m"] s(4,5) by simp
  ultimately show ?thesis
    unfolding enc using s(1) by simp
qed

lemma Decode_Encode4:
  assumes "0x10000 \<le> r" "r \<le> 0x10FFFF"
  shows "utf8_DecodeRune (utf8_EncodeRune r @ rest) = (r, 4)"
proof -
  obtain a b c m where s: "r = a * 262144 + b * 4096 + c * 64 + m"
    "0 \<le> b" "b < 64" "0 \<le> c" "c < 64" "0 \<le> m" "m < 64"
    "r div 262144 = a" "r div 4096 mod 64 = b" "r div 64 mod 64 = c" "r mod 64 = m"
    by (rule split4)
  have a: "0 \<le> a" "a \<le> 4"
    using assms s(1-7) by linarith+
  have lo: "a = 0 \<Longrightarrow> 16 \<le> b"
    using assms s(1-7) by linarith
  have hi: "a = 4 \<Longrightarrow> b \<le> 15"
    using assms s(1-7) by linarith
  have c0: "(of_char (char_of (0xF0 + a)) :: int) = 0xF0 + a"
    using a by (simp add: of_char_char_of)
  have c1: "(of_char (char_of (0x80 + b)) :: int) = 0x80 + b"
    using s(2,3) by (simp add: of_char_char_of)
  have c2: "(of_char (char_of (0x80 + c)) :: int) = 0x80 + c"
    using s(4,5) by (simp add: of_char_char_of)
  have c3: "(of_char (char_of (0x80 + m)) :: int) = 0x80 + m"
    using s(6,7) by (simp add: of_char_char_of)
  have enc: "utf8_EncodeRune r =
      [char_of (0xF0 + a), char_of (0x80 + b), char_of (0x80 + c), char_of (0x80 + m)]"
    using Encode4 [OF assms] by (simp only: s(8-11))
  have "utf8_DecodeRune (char_of (0xF0 + a) # char_of (0x80 + b) # char_of (0x80 + c) #
          char_of (0x80 + m) # rest) =
          ((0xF0 + a) mod 8 * 262144 + (0x80 + b) mod 64 * 4096 + (0x80 + c) mod 64 * 64 +
           (0x80 + m) mod 64, 4)"
    using a s(2-7) lo hi
    by (intro Decode4 [of "char_of (0xF0 + a)" "char_of (0x80 + b)" "char_of (0x80 + c)"
          "char_of (0x80 + m)" rest, unfolded c0 c1 c2 c3])
      simp_all
  moreover have "(0xF0 + a) mod 8 = a"
    using lead4_mod [of "0xF0 + a"] a by simp
  moreover have "(0x80 + b) mod 64 = b"
    using cont_mod [of "0x80 + b"] s(2,3) by simp
  moreover have "(0x80 + c) mod 64 = c"
    using cont_mod [of "0x80 + c"] s(4,5) by simp
  moreover have "(0x80 + m) mod 64 = m"
    using cont_mod [of "0x80 + m"] s(6,7) by simp
  ultimately show ?thesis
    unfolding enc using s(1) by simp
qed

lemma Decode_Encode:
  assumes "valid_rune r"
  shows "utf8_DecodeRune (utf8_EncodeRune r @ rest) = (r, length (utf8_EncodeRune r)) \<and>
         utf8_EncodeRune r \<noteq> []"
proof -
  consider "0 \<le> r \<and> r \<le> 0x7F" | "0x80 \<le> r \<and> r \<le> 0x7FF"
    | "0x800 \<le> r \<and> r \<le> 0xFFFF \<and> \<not> (0xD800 \<le> r \<and> r \<le> 0xDFFF)"
    | "0x10000 \<le> r \<and> r \<le> 0x10FFFF"
    using assms unfolding valid_rune_def by linarith
  then show ?thesis
  proof cases
    case 1
    then show ?thesis using Decode_Encode1 [of r rest] by (simp add: Encode1)
  next
    case 2
    then show ?thesis using Decode_Encode2 [of r rest] by (simp add: Encode2)
  next
    case 3
    then show ?thesis using Decode_Encode3 [of r rest] by (simp add: Encode3)
  next
    case 4
    then show ?thesis using Decode_Encode4 [of r rest] by (simp add: Encode4)
  qed
qed

lemma bytes_Runes_Nil: "bytes_Runes [] = []"
  by (simp add: bytes_Runes.simps)

lemma bytes_Map_Nil: "bytes_Map f [] = []"
  by (simp add: bytes_Map.simps)

lemma bytes_Runes_Encode:
  assumes "valid_rune r"
  shows "bytes_Runes (utf8_EncodeRune r @ rest) = r # bytes_Runes rest"
proof -
  from Decode_Encode [OF assms, of rest] obtain c cs where
    e: "utf8_EncodeRune r = c # cs" and
    d: "utf8_DecodeRune (utf8_EncodeRune r @ rest) = (r, length (utf8_EncodeRune r))"
    by (cases "utf8_EncodeRune r") auto
  have "bytes_Runes ((c # cs) @ rest) = r # bytes_Runes rest"
    using d unfolding e by (simp add: bytes_Runes_Cons)
  then show ?thesis by (simp only: e)
qed

lemma bytes_Runes_concat:
  "\<forall>r \<in> set rs. valid_rune r \<Longrightarrow>
   bytes_Runes (concat (map utf8_EncodeRune rs) @ rest) = rs @ bytes_Runes rest"
  by (induction rs) (simp_all add: bytes_Runes_Encode)

lemma bytes_Runes_valid: "r \<in> set (bytes_Runes s) \<Longrightarrow> valid_rune r"
proof (induction "length s" arbitrary: s rule: less_induct)
  case less
  show ?case
  proof (cases s)
    case Nil
    then show ?thesis using less.prems by (simp add: bytes_Runes_Nil)
  next
    case (Cons c cs)
    obtain r0 w where d: "utf8_DecodeRune (c # cs) = (r0, w)"
      by (cases "utf8_DecodeRune (c # cs)")
    have "0 < w" using d by (rule DecodeRune_width)
    then have shorter: "length (drop w (c # cs)) < length s"
      using Cons by simp
    from less.prems have "r = r0 \<or> r \<in> set (bytes_Runes (drop w (c # cs)))"
      unfolding Cons bytes_Runes_Cons d by simp
    then show ?thesis
      using DecodeRune_valid [OF d] less.hyps [OF shorter] by blast
  qed
qed

lemma bytes_Map_filter:
  "bytes_Map dropControl s =
     concat (map utf8_EncodeRune (filter (\<lambda>r. \<not> unicode_IsControl r) (bytes_Runes s)))"
proof (induction "length s" arbitrary: s rule: less_induct)
  case less
  show ?case
  proof (cases s)
    case Nil
    then show ?thesis by (simp add: bytes_Runes_Nil bytes_Map_Nil)
  next
    case (Cons c cs)
    obtain r w where d: "utf8_DecodeRune (c # cs) = (r, w)"
      by (cases "utf8_DecodeRune (c # cs)")
    have "0 < w" using d by (rule DecodeRune_width)
    then have "length (drop w (c # cs)) < length s"
      using Cons by simp
    from less [OF this] have ih: "bytes_Map dropControl (drop w (c # cs)) =
        concat (map utf8_EncodeRune
          (filter (\<lambda>r. \<not> unicode_IsControl r) (bytes_Runes (drop w (c # cs)))))" .
    have nonneg: "0 \<le> r" using DecodeRune_valid [OF d] by (simp add: valid_rune_def)
    show ?thesis
      unfolding Cons bytes_Map_Cons bytes_Runes_Cons d
      using ih nonneg by (simp add: dropControl_def)
  qed
qed

lemma bytes_Runes_Map:
  "bytes_Runes (bytes_Map dropControl s) =
     filter (\<lambda>r. \<not> unicode_IsControl r) (bytes_Runes s)"
proof -
  have "\<forall>r \<in> set (filter (\<lambda>r. \<not> unicode_IsControl r) (bytes_Runes s)). valid_rune r"
    by (auto intro: bytes_Runes_valid)
  from bytes_Runes_concat [OF this, of "[]"] show ?thesis
    by (simp add: bytes_Map_filter bytes_Runes_Nil)
qed

text \<open>
  C7: \<^verbatim>\<open>parseResponse\<close> hands the JSON decoder the body without its control code
  points: the code points of what is decoded are those of the body that are not
  control code points, in order, none replaced or escaped, and what is decoded is
  their encoding. So a body that decodes once they are dropped gives the decoded
  response and no error.
\<close>

theorem C7_control_code_points_dropped:
  "bytes_Runes (bytes_Map dropControl body) =
     filter (\<lambda>r. \<not> unicode_IsControl r) (bytes_Runes body) \<and>
   bytes_Map dropControl body =
     concat (map utf8_EncodeRune (filter (\<lambda>r. \<not> unicode_IsControl r) (bytes_Runes body))) \<and>
   (\<forall>r \<in> set (bytes_Runes (bytes_Map dropControl body)). \<not> unicode_IsControl r) \<and>
   (\<forall>resp. json_Unmarshal E (bytes_Map dropControl body) = Inr resp \<longrightarrow>
      parseResponse E body = (Some resp, None))"
proof (intro conjI)
  show "bytes_Runes (bytes_Map dropControl body) =
     filter (\<lambda>r. \<not> unicode_IsControl r) (bytes_Runes body)"
    by (rule bytes_Runes_Map)
  show "bytes_Map dropControl body =
     concat (map utf8_EncodeRune (filter (\<lambda>r. \<not> unicode_IsControl r) (bytes_Runes body)))"
    by (rule bytes_Map_filter)
  show "\<forall>r \<in> set (bytes_Runes (bytes_Map dropControl body)). \<not> unicode_IsControl r"
    by (simp add: bytes_Runes_Map)
  show "\<forall>resp. json_Unmarshal E (bytes_Map dropControl body) = Inr resp \<longrightarrow>
      parseResponse E body = (Some resp, None)"
    by (simp add: parseResponse_def)
qed

theorem C7_control_code_points_dropped_witness:
  \<open>json_Unmarshal example_env
     (bytes_Map dropControl
        ([CHR 0x0A] @ ''{"sta'' @ [CHR 0x7F] @ ''tus":'' @ [CHR 0x09, CHR 0xC2, CHR 0x85] @
         ''21007}'' @ [CHR 0x0D, CHR 0x0A])) = Inr \<lparr>Status = 21007\<rparr> \<and>
   parseResponse example_env
     ([CHR 0x0A] @ ''{"sta'' @ [CHR 0x7F] @ ''tus":'' @ [CHR 0x09, CHR 0xC2, CHR 0x85] @
      ''21007}'' @ [CHR 0x0D, CHR 0x0A]) = (Some \<lparr>Status = 21007\<rparr>, None) \<and>
   bytes_Runes
     ([CHR 0x0A] @ ''{"sta'' @ [CHR 0x7F] @ ''tus":'' @ [CHR 0x09, CHR 0xC2, CHR 0x85] @
      ''21007}'' @ [CHR 0x0D, CHR 0x0A]) =
     [0x0A, 0x7B, 0x22, 0x73, 0x74, 0x61, 0x7F, 0x74, 0x75, 0x73, 0x22, 0x3A, 0x09, 0x85,
      0x32, 0x31, 0x30, 0x30, 0x37, 0x7D, 0x0D, 0x0A] \<and>
   bytes_Map dropControl
     ([CHR 0x0A] @ ''{"sta'' @ [CHR 0x7F] @ ''tus":'' @ [CHR 0x09, CHR 0xC2, CHR 0x85] @
      ''21007}'' @ [CHR 0x0D, CHR 0x0A]) = ''{"status":21007}''\<close>
  (is "?h \<and> ?p \<and> ?runes \<and> ?stripped")
proof -
  have h: ?h
    by code_simp
  have p: ?p
    using C7_control_code_points_dropped [of
        "[CHR 0x0A] @ ''{\"sta'' @ [CHR 0x7F] @ ''tus\":'' @ [CHR 0x09, CHR 0xC2, CHR 0x85] @
         ''21007}'' @ [CHR 0x0D, CHR 0x0A]" example_env] h
    by blast
  have runes: ?runes and stripped: ?stripped
    by code_simp+
  show ?thesis using h p runes stripped by (intro conjI)
qed

end
